theory Spec2Isabelle
  imports Complex_Main "HOL-Library.AList"
begin

section \<open>Data model\<close>

text \<open>
  The server keeps one process-wide map \<open>loadedModels\<close> from the resolved artifact path to
  a \<open>ModelContext\<close>. A JavaScript \<open>Map\<close> iterates in insertion order, \<open>set\<close> on a present
  key keeps its position and \<open>delete\<close> removes it: an association list with
  \<open>AList.update\<close>, \<open>AList.delete\<close> and \<open>map_of\<close>.

  The inference engine (node-llama-cpp), \<open>path.join\<close> and the project root are not part of
  the repository: they are the fields of the record \<open>env\<close>, and every function of the
  server takes it as its first argument. Model handles and execution contexts are opaque to
  the server and are numbered. A rejected promise or a thrown value is the left summand of
  a sum type.
\<close>

datatype model_type = Embedding | Reranker | Chat

record js_error =
  isError :: bool
  err_code :: "string option"
  err_path :: "string option"
  err_message :: string

record ModelContext =
  model :: nat
  embeddingContext :: "nat option"
  rankingContext :: "nat option"
  lastUsed :: int

record chat_session =
  systemPrompt :: string
  contextSequence :: nat

record env =
  MODEL_DIRS :: "model_type \<Rightarrow> string"
  path_join :: "string \<Rightarrow> string \<Rightarrow> string"
  llama_loadModel :: "string \<Rightarrow> js_error + nat"
  createEmbeddingContext :: "nat \<Rightarrow> js_error + nat"
  createRankingContext :: "nat \<Rightarrow> js_error + nat"
  createContext :: "nat \<Rightarrow> js_error + nat"
  dispose :: "nat \<Rightarrow> js_error option"
  getEmbeddingFor :: "nat \<Rightarrow> string \<Rightarrow> js_error + real list"
  rankAndSort :: "nat \<Rightarrow> string \<Rightarrow> string list \<Rightarrow> js_error + (string \<times> real) list"
  prompt :: "chat_session \<Rightarrow> string \<Rightarrow> real \<Rightarrow> int option \<Rightarrow> string list \<times> (js_error + string)"

text \<open>
  The calls that make the engine allocate, release or generate are logged in the order in
  which the server issues them, so that properties can count them.
\<close>

datatype engine_call =
    LoadModel string
  | CreateEmbeddingContext nat
  | CreateRankingContext nat
  | CreateContext nat
  | Dispose nat
  | Prompt string string

record server =
  loadedModels :: "(string \<times> ModelContext) list"
  engine_calls :: "engine_call list"

definition log_call :: "engine_call \<Rightarrow> server \<Rightarrow> server" where
  "log_call c s = s\<lparr>engine_calls := engine_calls s @ [c]\<rparr>"

definition engine_loads :: "string \<Rightarrow> server \<Rightarrow> nat" where
  "engine_loads p s = length (filter (\<lambda>c. c = LoadModel p) (engine_calls s))"

section \<open>Model lifecycle: loadModel and unloadUnusedModels\<close>

definition endsWith :: "string \<Rightarrow> string \<Rightarrow> bool" where
  "endsWith s suf \<longleftrightarrow> length suf \<le> length s \<and> drop (length s - length suf) s = suf"

text \<open>Lines 49-52 of \<open>loadModel\<close>: the file name and the resolved path, the cache key.\<close>

definition modelFileName :: "string \<Rightarrow> string" where
  "modelFileName modelName =
     (if endsWith modelName ''.gguf'' then modelName else modelName @ ''.gguf'')"

definition modelPath :: "env \<Rightarrow> string \<Rightarrow> model_type \<Rightarrow> string" where
  "modelPath env modelName type = path_join env (MODEL_DIRS env type) (modelFileName modelName)"

text \<open>
  \<open>loadModel\<close> run without interruption; \<open>now\<close> is the value that the one call of
  \<open>Date.now()\<close> on the path taken returns (line 55 on a hit, line 65 on a fresh load).
\<close>

definition loadModel ::
  "env \<Rightarrow> server \<Rightarrow> string \<Rightarrow> model_type \<Rightarrow> int \<Rightarrow> (js_error + ModelContext) \<times> server" where
  "loadModel env s modelName type now =
     (let p = modelPath env modelName type in
      case map_of (loadedModels s) p of
        Some existingModel \<Rightarrow>
          (let m = existingModel\<lparr>lastUsed := now\<rparr>
           in (Inr m, s\<lparr>loadedModels := AList.update p m (loadedModels s)\<rparr>))
      | None \<Rightarrow>
          (let s1 = log_call (LoadModel p) s in
           case llama_loadModel env p of
             Inl e \<Rightarrow> (Inl e, s1)
           | Inr m \<Rightarrow>
               (let context = \<lparr>model = m, embeddingContext = None, rankingContext = None,
                                lastUsed = now\<rparr>
                in case type of
                     Embedding \<Rightarrow>
                       (let s2 = log_call (CreateEmbeddingContext m) s1 in
                        case createEmbeddingContext env m of
                          Inl e \<Rightarrow> (Inl e, s2)
                        | Inr c \<Rightarrow>
                            (let context' = context\<lparr>embeddingContext := Some c\<rparr>
                             in (Inr context',
                                 s2\<lparr>loadedModels := AList.update p context' (loadedModels s2)\<rparr>)))
                   | Reranker \<Rightarrow>
                       (let s2 = log_call (CreateRankingContext m) s1 in
                        case createRankingContext env m of
                          Inl e \<Rightarrow> (Inl e, s2)
                        | Inr c \<Rightarrow>
                            (let context' = context\<lparr>rankingContext := Some c\<rparr>
                             in (Inr context',
                                 s2\<lparr>loadedModels := AList.update p context' (loadedModels s2)\<rparr>)))
                   | Chat \<Rightarrow>
                       (Inr context,
                        s1\<lparr>loadedModels := AList.update p context (loadedModels s1)\<rparr>))))"

text \<open>
  The same function cut at its \<open>await\<close>s, for interleaved runs: a call runs up to the first
  \<open>await\<close> (line 59), a resumption from one \<open>await\<close> to the next (line 69 or 71) or to the
  end. Between two \<open>await\<close>s nothing else runs (one JavaScript thread).
\<close>

datatype load_task =
    AwaitLoad string model_type
  | AwaitContext string model_type ModelContext
  | Returned ModelContext
  | Thrown js_error

definition loadModel_call ::
  "env \<Rightarrow> server \<Rightarrow> string \<Rightarrow> model_type \<Rightarrow> int \<Rightarrow> load_task \<times> server" where
  "loadModel_call env s modelName type now =
     (let p = modelPath env modelName type in
      case map_of (loadedModels s) p of
        Some existingModel \<Rightarrow>
          (let m = existingModel\<lparr>lastUsed := now\<rparr>
           in (Returned m, s\<lparr>loadedModels := AList.update p m (loadedModels s)\<rparr>))
      | None \<Rightarrow> (AwaitLoad p type, log_call (LoadModel p) s))"

definition loadModel_resume :: "env \<Rightarrow> server \<Rightarrow> load_task \<Rightarrow> int \<Rightarrow> load_task \<times> server" where
  "loadModel_resume env s task now =
     (case task of
        AwaitLoad p type \<Rightarrow>
          (case llama_loadModel env p of
             Inl e \<Rightarrow> (Thrown e, s)
           | Inr m \<Rightarrow>
               (let context = \<lparr>model = m, embeddingContext = None, rankingContext = None,
                                lastUsed = now\<rparr>
                in case type of
                     Embedding \<Rightarrow>
                       (AwaitContext p type context, log_call (CreateEmbeddingContext m) s)
                   | Reranker \<Rightarrow>
                       (AwaitContext p type context, log_call (CreateRankingContext m) s)
                   | Chat \<Rightarrow>
                       (Returned context,
                        s\<lparr>loadedModels := AList.update p context (loadedModels s)\<rparr>)))
      | AwaitContext p type context \<Rightarrow>
          (case type of
             Embedding \<Rightarrow>
               (case createEmbeddingContext env (model context) of
                  Inl e \<Rightarrow> (Thrown e, s)
                | Inr c \<Rightarrow>
                    (let context' = context\<lparr>embeddingContext := Some c\<rparr>
                     in (Returned context',
                         s\<lparr>loadedModels := AList.update p context' (loadedModels s)\<rparr>)))
           | Reranker \<Rightarrow>
               (case createRankingContext env (model context) of
                  Inl e \<Rightarrow> (Thrown e, s)
                | Inr c \<Rightarrow>
                    (let context' = context\<lparr>rankingContext := Some c\<rparr>
                     in (Returned context',
                         s\<lparr>loadedModels := AList.update p context' (loadedModels s)\<rparr>)))
           | Chat \<Rightarrow>
               (Returned context,
                s\<lparr>loadedModels := AList.update p context (loadedModels s)\<rparr>))
      | Returned c \<Rightarrow> (Returned c, s)
      | Thrown e \<Rightarrow> (Thrown e, s))"

definition task_outcome :: "load_task \<Rightarrow> (js_error + ModelContext) option" where
  "task_outcome task =
     (case task of Returned c \<Rightarrow> Some (Inr c) | Thrown e \<Rightarrow> Some (Inl e) | _ \<Rightarrow> None)"

text \<open>
  An interleaved run: requests call \<open>loadModel\<close>, and the event loop resumes a suspended
  call once the engine has answered. Each event carries the clock reading at that moment.
\<close>

datatype sched_event = Call string model_type int | Resume nat int

record config =
  srv :: server
  tasks :: "load_task list"

definition sched_step :: "env \<Rightarrow> config \<Rightarrow> sched_event \<Rightarrow> config" where
  "sched_step env cfg ev =
     (case ev of
        Call modelName type now \<Rightarrow>
          (let (t, s') = loadModel_call env (srv cfg) modelName type now
           in \<lparr>srv = s', tasks = tasks cfg @ [t]\<rparr>)
      | Resume i now \<Rightarrow>
          (if i < length (tasks cfg)
           then (let (t, s') = loadModel_resume env (srv cfg) (tasks cfg ! i) now
                 in \<lparr>srv = s', tasks = (tasks cfg)[i := t]\<rparr>)
           else cfg))"

definition run :: "env \<Rightarrow> config \<Rightarrow> sched_event list \<Rightarrow> config" where
  "run env cfg evs = foldl (sched_step env) cfg evs"

text \<open>Acquisitions one after the other, each finished before the next starts.\<close>

fun acquire_seq ::
  "env \<Rightarrow> server \<Rightarrow> string \<Rightarrow> model_type \<Rightarrow> int list \<Rightarrow> (js_error + ModelContext) list \<times> server" where
  "acquire_seq env s modelName type [] = ([], s)"
| "acquire_seq env s modelName type (now # nows) =
     (let (r, s') = loadModel env s modelName type now;
          (rs, s'') = acquire_seq env s' modelName type nows
      in (r # rs, s''))"

text \<open>
  \<open>unloadUnusedModels\<close> (lines 81-90): the loop over the entries of the map; a \<open>dispose\<close>
  that throws ends the sweep with that error, the entry still in the map.
\<close>

fun sweep_entries ::
  "env \<Rightarrow> int \<Rightarrow> int \<Rightarrow> (string \<times> ModelContext) list \<Rightarrow> server \<Rightarrow> js_error option \<times> server" where
  "sweep_entries env now maxAgeMs [] s = (None, s)"
| "sweep_entries env now maxAgeMs ((path, context) # rest) s =
     (if now - lastUsed context > maxAgeMs
      then (let s1 = log_call (Dispose (model context)) s in
            case dispose env (model context) of
              Some e \<Rightarrow> (Some e, s1)
            | None \<Rightarrow>
                sweep_entries env now maxAgeMs rest
                  (s1\<lparr>loadedModels := AList.delete path (loadedModels s1)\<rparr>))
      else sweep_entries env now maxAgeMs rest s)"

definition unloadUnusedModels :: "env \<Rightarrow> server \<Rightarrow> int \<Rightarrow> int \<Rightarrow> js_error option \<times> server" where
  "unloadUnusedModels env s maxAgeMs now = sweep_entries env now maxAgeMs (loadedModels s) s"

section \<open>Requests and responses\<close>

text \<open>
  A request is the parsed JSON body; a field that is absent (or, for \<open>documents\<close> and
  \<open>messages\<close>, not an array) is \<open>None\<close>. A response is the status with the fields of
  the body that vary: the constant \<open>object\<close> tags and the \<open>usage\<close> block (always -1) are
  left out, and so are the \<open>created\<close> stamps. The session id \<open>`${model}-${Date.now()}`\<close>
  is kept as its two components.
\<close>

record error_obj =
  message :: string
  err_type :: string
  param :: "string option"
  code :: "string option"

record embedding_item =
  ei_embedding :: "real list"
  ei_index :: nat

record rerank_item =
  document :: string
  relevance_score :: real
  ri_index :: nat

record chunk =
  chunk_id :: "string \<times> int"
  chunk_model :: string
  delta_content :: string
  finish_reason :: "string option"

datatype sse_frame = Data chunk | DONE

datatype stream_end = Closed | Errored js_error

record chat_completion =
  cc_id :: "string \<times> int"
  cc_model :: string
  message_role :: string
  message_content :: string
  cc_finish_reason :: string

datatype response =
    ErrorJson nat error_obj
  | FlatErrorJson nat string
  | MessageJson string
  | EmbeddingsJson "embedding_item list" string
  | RerankJson string "rerank_item list"
  | ChatJson chat_completion
  | ChatStream "sse_frame list" stream_end

fun status :: "response \<Rightarrow> nat" where
  "status (ErrorJson st e) = st"
| "status (FlatErrorJson st m) = st"
| "status r = 200"

datatype js_input = Str string | Arr "string list"

record embeddings_request =
  er_model :: "string option"
  er_input :: "js_input option"

record rerank_request =
  rr_model :: "string option"
  rr_query :: "string option"
  rr_documents :: "string list option"

record load_request =
  lr_model :: "string option"
  lr_type :: "string option"

record chat_message =
  role :: string
  content :: string

record chat_request =
  cr_model :: "string option"
  cr_messages :: "chat_message list option"
  cr_temperature :: "real option"
  cr_max_tokens :: "int option"
  cr_stream :: "bool option"

text \<open>JavaScript truthiness of an optional string (\<open>!model\<close>) and of \<open>input\<close>.\<close>

definition truthy :: "string option \<Rightarrow> bool" where
  "truthy v = (case v of None \<Rightarrow> False | Some x \<Rightarrow> x \<noteq> [])"

definition truthy_input :: "js_input option \<Rightarrow> bool" where
  "truthy_input v = (case v of None \<Rightarrow> False | Some (Str x) \<Rightarrow> x \<noteq> [] | Some (Arr xs) \<Rightarrow> True)"

definition invalid_request :: "string \<Rightarrow> string \<Rightarrow> response" where
  "invalid_request msg p =
     ErrorJson 400 \<lparr>message = msg, err_type = ''invalid_request_error'', param = Some p,
                    code = None\<rparr>"

text \<open>
  The \<open>catch\<close> block that the embeddings, rerank and chat handlers share word for word
  (lines 164-197, 257-290, 593-626), and the flat one of the load handler (314-335).
\<close>

definition is_ENOENT :: "js_error \<Rightarrow> bool" where
  "is_ENOENT e \<longleftrightarrow> isError e \<and> err_code e = Some ''ENOENT''"

definition not_found_message :: "js_error \<Rightarrow> string" where
  "not_found_message e =
     ''Model '' @ [CHR 0x27] @ (case err_path e of None \<Rightarrow> ''undefined'' | Some p \<Rightarrow> p)
       @ [CHR 0x27] @ '' not found in models directory''"

definition error_message :: "js_error \<Rightarrow> string" where
  "error_message e = (if isError e then err_message e else ''Unknown error occurred'')"

definition openai_catch :: "js_error \<Rightarrow> response" where
  "openai_catch e =
     (if is_ENOENT e
      then ErrorJson 404 \<lparr>message = not_found_message e, err_type = ''invalid_request_error'',
                           param = Some ''model'', code = Some ''model_not_found''\<rparr>
      else ErrorJson 500 \<lparr>message = error_message e, err_type = ''server_error'',
                           param = None, code = None\<rparr>)"

definition flat_catch :: "js_error \<Rightarrow> response" where
  "flat_catch e =
     (if is_ENOENT e then FlatErrorJson 404 (not_found_message e)
      else FlatErrorJson 500 (error_message e))"

text \<open>The 404 body that names the path \<open>p\<close>.\<close>

definition model_not_found :: "string \<Rightarrow> response" where
  "model_not_found p =
     ErrorJson 404
       \<lparr>message = ''Model '' @ [CHR 0x27] @ p @ [CHR 0x27] @ '' not found in models directory'',
        err_type = ''invalid_request_error'', param = Some ''model'',
        code = Some ''model_not_found''\<rparr>"

section \<open>POST /v1/embeddings\<close>

text \<open>The loop of lines 141-149: each vector is pushed with the current length as index.\<close>

fun embed_loop ::
  "env \<Rightarrow> nat \<Rightarrow> string list \<Rightarrow> embedding_item list \<Rightarrow> js_error + embedding_item list" where
  "embed_loop env ectx [] embeddings = Inr embeddings"
| "embed_loop env ectx (text # rest) embeddings =
     (case getEmbeddingFor env ectx text of
        Inl e \<Rightarrow> Inl e
      | Inr v \<Rightarrow>
          embed_loop env ectx rest
            (embeddings @ [\<lparr>ei_embedding = v, ei_index = length embeddings\<rparr>]))"

definition inputs_of :: "js_input \<Rightarrow> string list" where
  "inputs_of input = (case input of Arr xs \<Rightarrow> xs | Str x \<Rightarrow> [x])"

definition embeddings_handler ::
  "env \<Rightarrow> server \<Rightarrow> embeddings_request \<Rightarrow> int \<Rightarrow> response \<times> server" where
  "embeddings_handler env s req now =
     (if \<not> truthy (er_model req) \<or> \<not> truthy_input (er_input req)
      then (invalid_request ''Missing required parameters: model, input''
              (if \<not> truthy (er_model req) then ''model'' else ''input''), s)
      else
        (case (er_model req, er_input req) of
           (Some model_name, Some input) \<Rightarrow>
             (case loadModel env s model_name Embedding now of
                (Inl e, s') \<Rightarrow> (openai_catch e, s')
              | (Inr modelContext, s') \<Rightarrow>
                  (case embeddingContext modelContext of
                     None \<Rightarrow> (invalid_request ''Model is not suitable for embeddings'' ''model'', s')
                   | Some ectx \<Rightarrow>
                       (case embed_loop env ectx (inputs_of input) [] of
                          Inl e \<Rightarrow> (openai_catch e, s')
                        | Inr embeddings \<Rightarrow> (EmbeddingsJson embeddings model_name, s'))))
         | _ \<Rightarrow> (invalid_request ''Missing required parameters: model, input'' ''model'', s)))"

section \<open>POST /v1/rerank\<close>

definition rerank_data :: "(string \<times> real) list \<Rightarrow> rerank_item list" where
  "rerank_data rankedResults =
     map (\<lambda>(index, result). \<lparr>document = fst result, relevance_score = snd result,
                              ri_index = index\<rparr>)
       (List.enumerate 0 rankedResults)"

definition rerank_handler ::
  "env \<Rightarrow> server \<Rightarrow> rerank_request \<Rightarrow> int \<Rightarrow> response \<times> server" where
  "rerank_handler env s req now =
     (case (rr_model req, rr_query req, rr_documents req) of
        (Some model_name, Some query, Some documents) \<Rightarrow>
          (if model_name = [] then
             (invalid_request ''Missing required parameters: model, query, documents (array)''
                ''model'', s)
           else if query = [] then
             (invalid_request ''Missing required parameters: model, query, documents (array)''
                ''query'', s)
           else
             (case loadModel env s model_name Reranker now of
                (Inl e, s') \<Rightarrow> (openai_catch e, s')
              | (Inr modelContext, s') \<Rightarrow>
                  (case rankingContext modelContext of
                     None \<Rightarrow> (invalid_request ''Model is not suitable for reranking'' ''model'', s')
                   | Some rctx \<Rightarrow>
                       (case rankAndSort env rctx query documents of
                          Inl e \<Rightarrow> (openai_catch e, s')
                        | Inr rankedResults \<Rightarrow>
                            (RerankJson model_name (rerank_data rankedResults), s')))))
      | _ \<Rightarrow>
          (invalid_request ''Missing required parameters: model, query, documents (array)''
             (if \<not> truthy (rr_model req) then ''model''
              else if \<not> truthy (rr_query req) then ''query'' else ''documents''), s))"

section \<open>POST /v1/models/load and /v1/models/unload\<close>

definition type_of_string :: "string \<Rightarrow> model_type option" where
  "type_of_string t =
     (if t = ''embedding'' then Some Embedding
      else if t = ''reranker'' then Some Reranker
      else if t = ''chat'' then Some Chat else None)"

definition models_load_handler ::
  "env \<Rightarrow> server \<Rightarrow> load_request \<Rightarrow> int \<Rightarrow> response \<times> server" where
  "models_load_handler env s req now =
     (if \<not> truthy (lr_model req) \<or> \<not> truthy (lr_type req)
      then (FlatErrorJson 400 ''Model name and type (embedding or reranker) are required'', s)
      else
        (case (lr_model req, lr_type req) of
           (Some model_name, Some t) \<Rightarrow>
             (case type_of_string t of
                None \<Rightarrow>
                  (FlatErrorJson 400
                     (''Type must be either '' @ [CHR 0x27] @ ''embedding'' @ [CHR 0x27] @ '', ''
                        @ [CHR 0x27] @ ''reranker'' @ [CHR 0x27] @ '', or ''
                        @ [CHR 0x27] @ ''chat'' @ [CHR 0x27]), s)
              | Some type \<Rightarrow>
                  (case loadModel env s model_name type now of
                     (Inl e, s') \<Rightarrow> (flat_catch e, s')
                   | (Inr modelContext, s') \<Rightarrow> (MessageJson ''Model loaded successfully'', s')))
         | _ \<Rightarrow>
             (FlatErrorJson 400 ''Model name and type (embedding or reranker) are required'', s)))"

text \<open>
  Lines 347-354: the directories are tried in the order of \<open>Object.values(MODEL_DIRS)\<close>,
  which is the order of the object literal (embedding, reranker, chat); the loop stops at
  the first path that the map holds.
\<close>

fun find_loaded ::
  "env \<Rightarrow> (string \<times> ModelContext) list \<Rightarrow> string \<Rightarrow> model_type list \<Rightarrow> string option" where
  "find_loaded env lm model_name [] = None"
| "find_loaded env lm model_name (t # ts) =
     (let testPath = path_join env (MODEL_DIRS env t) (model_name @ ''.gguf'') in
      if map_of lm testPath \<noteq> None then Some testPath
      else find_loaded env lm model_name ts)"

definition models_unload_handler ::
  "env \<Rightarrow> server \<Rightarrow> string option \<Rightarrow> response \<times> server" where
  "models_unload_handler env s model_opt =
     (case model_opt of
        None \<Rightarrow> (FlatErrorJson 400 ''Model name is required'', s)
      | Some model_name \<Rightarrow>
          (if model_name = [] then (FlatErrorJson 400 ''Model name is required'', s)
           else
             (case find_loaded env (loadedModels s) model_name [Embedding, Reranker, Chat] of
                None \<Rightarrow> (FlatErrorJson 404 ''Model not found or not loaded'', s)
              | Some p \<Rightarrow>
                  (if p = [] then (FlatErrorJson 404 ''Model not found or not loaded'', s)
                   else
                     (case map_of (loadedModels s) p of
                        None \<Rightarrow>
                          (MessageJson ''Model unloaded successfully'',
                           s\<lparr>loadedModels := AList.delete p (loadedModels s)\<rparr>)
                      | Some modelContext \<Rightarrow>
                          (let s1 = log_call (Dispose (model modelContext)) s in
                           case dispose env (model modelContext) of
                             Some e \<Rightarrow> (FlatErrorJson 500 (error_message e), s1)
                           | None \<Rightarrow>
                               (MessageJson ''Model unloaded successfully'',
                                s1\<lparr>loadedModels := AList.delete p (loadedModels s1)\<rparr>)))))))"

section \<open>POST /v1/chat/completions\<close>

text \<open>Lines 459-464: the content of the last message whose role is \<open>system\<close>, else \<open>""\<close>.\<close>

fun systemPrompt_loop :: "string \<Rightarrow> chat_message list \<Rightarrow> string" where
  "systemPrompt_loop sp [] = sp"
| "systemPrompt_loop sp (msg # msgs) =
     systemPrompt_loop (if role msg = ''system'' then content msg else sp) msgs"

text \<open>
  \<open>onTextChunk\<close> (lines 496-519) on the pair of the buffer and the frames enqueued so far,
  then the rest of \<open>start\<close> (lines 523-550): the last flush, the \<open>[DONE]\<close> frame and the
  close, or \<open>controller.error\<close> when \<open>session.prompt\<close> rejects.
\<close>

definition onTextChunk ::
  "string \<times> int \<Rightarrow> string \<Rightarrow> string \<times> sse_frame list \<Rightarrow> string \<Rightarrow> string \<times> sse_frame list" where
  "onTextChunk sessionId model_name st token =
     (let buffer = fst st @ token in
      if CHR '' '' \<in> set buffer \<or> CHR 0x0A \<in> set buffer
      then ([], snd st @ [Data \<lparr>chunk_id = sessionId, chunk_model = model_name,
                                 delta_content = buffer, finish_reason = None\<rparr>])
      else (buffer, snd st))"

definition stream_start ::
  "string \<times> int \<Rightarrow> string \<Rightarrow> string list \<Rightarrow> js_error + string \<Rightarrow> sse_frame list \<times> stream_end" where
  "stream_start sessionId model_name tokens outcome =
     (let (buffer, out) = foldl (onTextChunk sessionId model_name) ([], []) tokens in
      case outcome of
        Inl e \<Rightarrow> (out, Errored e)
      | Inr response \<Rightarrow>
          ((if buffer \<noteq> []
            then out @ [Data \<lparr>chunk_id = sessionId, chunk_model = model_name,
                              delta_content = buffer, finish_reason = Some ''stop''\<rparr>]
            else out) @ [DONE], Closed))"

text \<open>
  Lines 484-592, with the session in hand: \<open>session.prompt\<close> on the content of the last
  message, streamed or not. The engine reports the text chunks, then rejects or returns the
  whole response.
\<close>

definition chat_respond ::
  "env \<Rightarrow> server \<Rightarrow> chat_session \<Rightarrow> string \<times> int \<Rightarrow> string \<Rightarrow> chat_message list \<Rightarrow> real \<Rightarrow>
   int option \<Rightarrow> bool \<Rightarrow> response \<times> server" where
  "chat_respond env s session sessionId model_name messages temperature max_tokens stream =
     (let text = content (last messages);
          s' = log_call (Prompt (systemPrompt session) text) s;
          (tokens, outcome) = prompt env session text temperature max_tokens
      in if stream
         then (case stream_start sessionId model_name tokens outcome of
                 (frames, fin) \<Rightarrow> (ChatStream frames fin, s'))
         else (case outcome of
                 Inl e \<Rightarrow> (openai_catch e, s')
               | Inr response \<Rightarrow>
                   (ChatJson \<lparr>cc_id = sessionId, cc_model = model_name,
                              message_role = ''assistant'', message_content = response,
                              cc_finish_reason = ''stop''\<rparr>, s')))"

text \<open>
  The handler. \<open>chatSessions\<close> is the map that line 453 creates inside the handler, so it
  is empty at the lookup of line 467; the \<open>set\<close> of line 476 and the timer of line 479
  act on that same map, which nothing reads afterwards. The chat wrapper is the same
  constant template for every session and is not part of the session record. \<open>now\<close> is
  the clock reading inside \<open>loadModel\<close>, \<open>now_id\<close> the one of line 456.
\<close>

definition chat_completions_handler ::
  "env \<Rightarrow> server \<Rightarrow> chat_request \<Rightarrow> int \<Rightarrow> int \<Rightarrow> response \<times> server" where
  "chat_completions_handler env s req now now_id =
     (case (cr_model req, cr_messages req) of
        (Some model_name, Some messages) \<Rightarrow>
          (if model_name = [] then
             (invalid_request ''Missing required parameters: model, messages (array)''
                ''model'', s)
           else if messages = [] then
             (invalid_request ''Missing required parameters: model, messages (array)''
                ''messages'', s)
           else
             (let temperature = (case cr_temperature req of None \<Rightarrow> 0.7 | Some t \<Rightarrow> t);
                  stream = (case cr_stream req of None \<Rightarrow> False | Some b \<Rightarrow> b);
                  chatSessions = (Map.empty :: string \<times> int \<rightharpoonup> chat_session)
              in case loadModel env s model_name Chat now of
                   (Inl e, s1) \<Rightarrow> (openai_catch e, s1)
                 | (Inr modelContext, s1) \<Rightarrow>
                     (let sessionId = (model_name, now_id);
                          sp = systemPrompt_loop [] messages
                      in case chatSessions sessionId of
                           Some session \<Rightarrow>
                             chat_respond env s1 session sessionId model_name messages
                               temperature (cr_max_tokens req) stream
                         | None \<Rightarrow>
                             (let s2 = log_call (CreateContext (model modelContext)) s1 in
                              case createContext env (model modelContext) of
                                Inl e \<Rightarrow> (openai_catch e, s2)
                              | Inr ctx \<Rightarrow>
                                  (let session = \<lparr>systemPrompt = sp, contextSequence = ctx\<rparr>
                                   in chat_respond env s2 session sessionId model_name messages
                                        temperature (cr_max_tokens req) stream)))))
      | _ \<Rightarrow>
          (invalid_request ''Missing required parameters: model, messages (array)''
             (if \<not> truthy (cr_model req) then ''model'' else ''messages''), s))"

text \<open>The text of a stream: the \<open>delta.content\<close> fields of its chunks, in order.\<close>

fun delta_contents :: "sse_frame list \<Rightarrow> string" where
  "delta_contents [] = []"
| "delta_contents (Data c # fs) = delta_content c @ delta_contents fs"
| "delta_contents (DONE # fs) = delta_contents fs"

section \<open>A concrete environment\<close>

text \<open>
  An engine and a directory layout on which the functions above can be run: every artifact
  loads except \<open>ghost.gguf\<close> (no such file) and \<open>broken.gguf\<close> (not a model), and a
  generation produces ``Hello world'' in four text chunks.
\<close>

definition demo_dirs :: "model_type \<Rightarrow> string" where
  "demo_dirs t =
     (case t of Embedding \<Rightarrow> ''models/embedding'' | Reranker \<Rightarrow> ''models/reranker''
      | Chat \<Rightarrow> ''models/chat'')"

definition demo_env :: env where
  "demo_env =
     \<lparr>MODEL_DIRS = demo_dirs,
      path_join = (\<lambda>d f. d @ ''/'' @ f),
      llama_loadModel = (\<lambda>p.
         if endsWith p ''/ghost.gguf''
         then Inl \<lparr>isError = True, err_code = Some ''ENOENT'', err_path = Some p,
                   err_message = ''no such file or directory''\<rparr>
         else if endsWith p ''/broken.gguf''
         then Inl \<lparr>isError = True, err_code = None, err_path = None,
                   err_message = ''Failed to load model''\<rparr>
         else Inr (length p)),
      createEmbeddingContext = (\<lambda>m. Inr (m + 1)),
      createRankingContext = (\<lambda>m. Inr (m + 2)),
      createContext = (\<lambda>m. Inr (m + 3)),
      dispose = (\<lambda>m. None),
      getEmbeddingFor = (\<lambda>c text. Inr [real (length text), 1]),
      rankAndSort = (\<lambda>c q docs.
         Inr (rev (sort_key snd (map (\<lambda>d. (d, real (length d))) docs)))),
      prompt = (\<lambda>session text temperature max_tokens.
         ([''Hel'', ''lo '', ''wor'', ''ld''], Inr ''Hello world''))\<rparr>"

definition init_server :: server where
  "init_server = \<lparr>loadedModels = [], engine_calls = []\<rparr>"

definition two_models :: server where
  "two_models =
     \<lparr>loadedModels =
        [(''models/chat/old.gguf'',
          \<lparr>model = 1, embeddingContext = None, rankingContext = None, lastUsed = 0\<rparr>),
         (''models/chat/new.gguf'',
          \<lparr>model = 2, embeddingContext = None, rankingContext = None, lastUsed = 1000000\<rparr>)],
      engine_calls = []\<rparr>"

definition chat_hi :: chat_request where
  "chat_hi =
     \<lparr>cr_model = Some ''m'',
      cr_messages = Some [\<lparr>role = ''system'', content = ''Be brief''\<rparr>,
                          \<lparr>role = ''user'', content = ''hi''\<rparr>],
      cr_temperature = Some 0, cr_max_tokens = None, cr_stream = None\<rparr>"

definition echo_env :: env where
  "echo_env =
     demo_env\<lparr>prompt := (\<lambda>session text temperature max_tokens.
        ([''Echo'', '': '', systemPrompt session, '' / '', text],
         Inr (''Echo: '' @ systemPrompt session @ '' / '' @ text)))\<rparr>"

lemmas demo_simps =
  demo_env_def demo_dirs_def init_server_def modelPath_def modelFileName_def endsWith_def
  log_call_def Let_def loadModel_def

section \<open>Properties of the model lifecycle\<close>

lemma loadModel_phases:
  "(case loadModel env s modelName type now of (r, s') \<Rightarrow> (Some r, s')) =
   (case loadModel_call env s modelName type now of (t0, s0) \<Rightarrow>
    case loadModel_resume env s0 t0 now of (t1, s1) \<Rightarrow>
    case loadModel_resume env s1 t1 now of (t2, s2) \<Rightarrow> (task_outcome t2, s2))"
  by (simp add: loadModel_def loadModel_call_def loadModel_resume_def task_outcome_def Let_def
        log_call_def split: option.splits sum.splits model_type.splits)

lemma loadModel_failure_keeps_cache:
  "loadModel env s modelName type now = (Inl e, s') \<Longrightarrow> loadedModels s' = loadedModels s"
  by (auto simp: loadModel_def Let_def log_call_def
        split: option.splits sum.splits model_type.splits)

lemma loadModel_resume_thrown_keeps_cache:
  "loadModel_resume env s task now = (Thrown e, s') \<Longrightarrow> loadedModels s' = loadedModels s"
  by (auto simp: loadModel_resume_def Let_def log_call_def
        split: load_task.splits sum.splits model_type.splits)

lemma loadModel_hit:
  "map_of (loadedModels s) (modelPath env modelName type) = Some c \<Longrightarrow>
   loadModel env s modelName type now =
     (Inr (c\<lparr>lastUsed := now\<rparr>),
      s\<lparr>loadedModels := AList.update (modelPath env modelName type) (c\<lparr>lastUsed := now\<rparr>)
                          (loadedModels s)\<rparr>)"
  by (simp add: loadModel_def Let_def)

lemma loadModel_success_cached:
  "loadModel env s modelName type now = (Inr c, s') \<Longrightarrow>
   map_of (loadedModels s') (modelPath env modelName type) = Some c"
  by (auto simp: loadModel_def Let_def log_call_def update_conv'
        split: option.splits sum.splits model_type.splits)

lemma loadModel_miss_loads:
  "map_of (loadedModels s) (modelPath env modelName type) = None \<Longrightarrow>
   loadModel env s modelName type now = (r, s') \<Longrightarrow>
   engine_loads (modelPath env modelName type) s' =
     engine_loads (modelPath env modelName type) s + 1"
  by (auto simp: loadModel_def Let_def log_call_def engine_loads_def
        split: option.splits sum.splits model_type.splits)

lemma loadModel_keeps_distinct:
  "distinct (map fst (loadedModels s)) \<Longrightarrow> loadModel env s modelName type now = (r, s') \<Longrightarrow>
   distinct (map fst (loadedModels s'))"
  by (auto simp: loadModel_def Let_def log_call_def distinct_update
        split: option.splits sum.splits model_type.splits)

lemma acquire_seq_cached:
  "map_of (loadedModels s) (modelPath env modelName type) = Some c \<Longrightarrow>
   acquire_seq env s modelName type nows = (rs, s') \<Longrightarrow>
   engine_calls s' = engine_calls s \<and> (\<forall>r \<in> set rs. \<exists>c'. r = Inr c' \<and> model c' = model c)"
proof (induction nows arbitrary: s c rs)
  case Nil
  then show ?case by simp
next
  case (Cons now nows)
  let ?p = "modelPath env modelName type"
  let ?c = "c\<lparr>lastUsed := now\<rparr>"
  let ?s1 = "s\<lparr>loadedModels := AList.update ?p ?c (loadedModels s)\<rparr>"
  have l: "loadModel env s modelName type now = (Inr ?c, ?s1)"
    using Cons.prems(1) by (rule loadModel_hit)
  obtain rs1 where r: "acquire_seq env ?s1 modelName type nows = (rs1, s')"
      and rs: "rs = Inr ?c # rs1"
    using Cons.prems(2) l by (auto simp: Let_def split: prod.splits)
  have "map_of (loadedModels ?s1) ?p = Some ?c" by (simp add: update_conv')
  from Cons.IH[OF this r] show ?case using rs by auto
qed

lemma calls_overlap:
  "map_of (loadedModels (srv cfg)) (modelPath env modelName type) = None \<Longrightarrow>
   engine_loads (modelPath env modelName type)
       (srv (run env cfg (map (Call modelName type) ts))) =
     engine_loads (modelPath env modelName type) (srv cfg) + length ts"
proof (induction ts arbitrary: cfg)
  case Nil
  then show ?case by (simp add: run_def)
next
  case (Cons t ts)
  let ?cfg = "sched_step env cfg (Call modelName type t)"
  have a: "loadedModels (srv ?cfg) = loadedModels (srv cfg)"
    using Cons.prems by (simp add: sched_step_def loadModel_call_def Let_def log_call_def)
  have b: "engine_loads (modelPath env modelName type) (srv ?cfg) =
           engine_loads (modelPath env modelName type) (srv cfg) + 1"
    using Cons.prems
    by (simp add: sched_step_def loadModel_call_def Let_def log_call_def engine_loads_def)
  have "map_of (loadedModels (srv ?cfg)) (modelPath env modelName type) = None"
    using a Cons.prems by simp
  from Cons.IH[OF this] show ?case using b by (simp add: run_def)
qed

text \<open>
  C1. As stated the claim fails: \<open>loadModel\<close> has no Loading placeholder, so two requests
  for the same uncached model that both arrive before the first load has finished each
  call the engine; here both run to the end and the engine has loaded the artifact twice.
\<close>

theorem concurrent_acquire_loads_twice:
  "engine_loads ''models/chat/m.gguf''
     (srv (run demo_env \<lparr>srv = init_server, tasks = []\<rparr>
        [Call ''m'' Chat 1, Call ''m'' Chat 2, Resume 0 3, Resume 1 4])) = 2"
  by (simp add: run_def sched_step_def loadModel_call_def loadModel_resume_def demo_env_def
        demo_dirs_def init_server_def modelPath_def modelFileName_def endsWith_def log_call_def
        engine_loads_def Let_def)

lemma acquire_seq_loads:
  "map_of (loadedModels s) (modelPath env modelName type) = None \<Longrightarrow>
   acquire_seq env s modelName type nows = (rs, s') \<Longrightarrow>
   engine_loads (modelPath env modelName type) s' =
     engine_loads (modelPath env modelName type) s + length (takeWhile isl rs)
       + (if list_all isl rs then 0 else 1)"
proof (induction nows arbitrary: s rs)
  case Nil
  then show ?case by simp
next
  case (Cons now nows)
  let ?p = "modelPath env modelName type"
  obtain r s1 where l: "loadModel env s modelName type now = (r, s1)"
    by (cases "loadModel env s modelName type now")
  obtain rs1 where a: "acquire_seq env s1 modelName type nows = (rs1, s')" and rs: "rs = r # rs1"
    using Cons.prems(2) l by (auto simp: Let_def split: prod.splits)
  note n = loadModel_miss_loads[OF Cons.prems(1) l]
  show ?case
  proof (cases r)
    case (Inl e)
    with l have "loadedModels s1 = loadedModels s"
      using loadModel_failure_keeps_cache by blast
    with Cons.prems(1) have "map_of (loadedModels s1) ?p = None" by simp
    from Cons.IH[OF this a] n rs Inl show ?thesis by simp
  next
    case (Inr c)
    with l have "map_of (loadedModels s1) ?p = Some c"
      using loadModel_success_cached by blast
    from acquire_seq_cached[OF this a] have "engine_loads ?p s' = engine_loads ?p s1"
      by (simp add: engine_loads_def)
    with n rs Inr show ?thesis by simp
  qed
qed

lemma loadModel_resume_sets_entry:
  "task = AwaitLoad p T \<or> task = AwaitContext p T c0 \<Longrightarrow>
   loadModel_resume env s task now = (Returned c, s') \<Longrightarrow>
   map_of (loadedModels s') p = Some c"
  by (auto simp: loadModel_resume_def Let_def log_call_def update_conv'
        split: sum.splits model_type.splits)

text \<open>
  C1, amended. \<open>loadModel\<close> does not coalesce loads. For a model that the cache does not
  hold:
  \<^item> \<open>n\<close> calls issued before any of them is resumed perform \<open>n\<close> loads;
  \<^item> a suspended call that is resumed and returns, in whatever state, stores its own entry
    under its path, so the later of two overlapping loads replaces the entry of the
    earlier;
  \<^item> acquisitions made one after the other perform one load for each acquisition up to and
    including the first that succeeds and none after it, hence exactly one when the first
    succeeds, and then all later acquisitions return the model of that load;
  \<^item> a call or a resumption that throws leaves the cache map as it was, so that no entry
    for the failed load remains.
\<close>

theorem acquire_without_coalescing:
  assumes "map_of (loadedModels s) (modelPath env modelName type) = None"
  shows "engine_loads (modelPath env modelName type)
           (srv (run env \<lparr>srv = s, tasks = ts0\<rparr> (map (Call modelName type) ts))) =
         engine_loads (modelPath env modelName type) s + length ts
       \<and> ((task = AwaitLoad p T \<or> task = AwaitContext p T c0) \<and>
            loadModel_resume env s0 task now = (Returned c1, s3) \<longrightarrow>
              map_of (loadedModels s3) p = Some c1)
       \<and> (acquire_seq env s modelName type nows = (rs, s') \<longrightarrow>
            engine_loads (modelPath env modelName type) s' =
              engine_loads (modelPath env modelName type) s + length (takeWhile isl rs)
                + (if list_all isl rs then 0 else 1)
            \<and> (\<forall>c rs'. rs = Inr c # rs' \<longrightarrow>
                  engine_loads (modelPath env modelName type) s' =
                    engine_loads (modelPath env modelName type) s + 1
                  \<and> (\<forall>r \<in> set rs'. \<exists>c'. r = Inr c' \<and> model c' = model c)))
       \<and> (loadModel env s modelName type now = (Inl e, s1) \<longrightarrow> loadedModels s1 = loadedModels s)
       \<and> (loadModel_resume env s0 task now = (Thrown e, s2) \<longrightarrow> loadedModels s2 = loadedModels s0)"
proof (intro conjI impI allI)
  show "engine_loads (modelPath env modelName type)
           (srv (run env \<lparr>srv = s, tasks = ts0\<rparr> (map (Call modelName type) ts))) =
         engine_loads (modelPath env modelName type) s + length ts"
    using calls_overlap[of "\<lparr>srv = s, tasks = ts0\<rparr>" env modelName type ts] assms by simp
next
  assume "(task = AwaitLoad p T \<or> task = AwaitContext p T c0) \<and>
            loadModel_resume env s0 task now = (Returned c1, s3)"
  then show "map_of (loadedModels s3) p = Some c1"
    using loadModel_resume_sets_entry by blast
next
  assume a: "acquire_seq env s modelName type nows = (rs, s')"
  from acquire_seq_loads[OF assms a]
  show "engine_loads (modelPath env modelName type) s' =
              engine_loads (modelPath env modelName type) s + length (takeWhile isl rs)
                + (if list_all isl rs then 0 else 1)" .
next
  fix c rs'
  assume a: "acquire_seq env s modelName type nows = (rs, s')" and r: "rs = Inr c # rs'"
  from acquire_seq_loads[OF assms a] r
  show "engine_loads (modelPath env modelName type) s' =
        engine_loads (modelPath env modelName type) s + 1" by simp
next
  fix c rs'
  assume a: "acquire_seq env s modelName type nows = (rs, s')" and r: "rs = Inr c # rs'"
  then obtain t nows' where nw: "nows = t # nows'"
    by (cases nows) auto
  obtain s0' where l: "loadModel env s modelName type t = (Inr c, s0')"
      and q: "acquire_seq env s0' modelName type nows' = (rs', s')"
    using a r nw by (auto simp: Let_def split: prod.splits)
  from acquire_seq_cached[OF loadModel_success_cached[OF l] q]
  show "\<forall>r \<in> set rs'. \<exists>c'. r = Inr c' \<and> model c' = model c" by simp
next
  assume "loadModel env s modelName type now = (Inl e, s1)"
  then show "loadedModels s1 = loadedModels s" by (rule loadModel_failure_keeps_cache)
next
  assume "loadModel_resume env s0 task now = (Thrown e, s2)"
  then show "loadedModels s2 = loadedModels s0" by (rule loadModel_resume_thrown_keeps_cache)
qed

theorem acquire_without_coalescing_witness:
  "engine_loads ''models/chat/m.gguf''
     (snd (acquire_seq demo_env init_server ''m'' Chat [1, 2, 3])) = 1
   \<and> engine_loads ''models/chat/ghost.gguf''
       (snd (acquire_seq demo_env init_server ''ghost'' Chat [1, 2, 3])) = 3
   \<and> loadedModels (snd (loadModel demo_env init_server ''ghost'' Chat 1)) = []
   \<and> map_of (loadedModels (srv (run demo_env \<lparr>srv = init_server, tasks = []\<rparr>
        [Call ''m'' Chat 1, Call ''m'' Chat 2, Resume 0 3, Resume 1 4])))
       ''models/chat/m.gguf'' =
     Some \<lparr>model = 18, embeddingContext = None, rankingContext = None, lastUsed = 4\<rparr>"
proof -
  let ?first = "\<lparr>model = 18, embeddingContext = None, rankingContext = None, lastUsed = 3\<rparr>"
  let ?second = "\<lparr>model = 18, embeddingContext = None, rankingContext = None, lastUsed = 4\<rparr>"
  let ?calls = "[LoadModel ''models/chat/m.gguf'', LoadModel ''models/chat/m.gguf'']"
  let ?mid = "\<lparr>loadedModels = [(''models/chat/m.gguf'', ?first)], engine_calls = ?calls\<rparr>"
  have h: "map_of (loadedModels init_server) (modelPath demo_env ''m'' Chat) = None"
    by (simp add: init_server_def)
  have g: "map_of (loadedModels init_server) (modelPath demo_env ''ghost'' Chat) = None"
    by (simp add: init_server_def)
  have p: "modelPath demo_env ''m'' Chat = ''models/chat/m.gguf''"
    "modelPath demo_env ''ghost'' Chat = ''models/chat/ghost.gguf''"
    by (simp_all add: demo_simps)
  obtain c rs s' where a: "acquire_seq demo_env init_server ''m'' Chat [1, 2, 3] = (Inr c # rs, s')"
    by (simp add: demo_simps)
  obtain e1 e2 e3 s'' where b: "acquire_seq demo_env init_server ''ghost'' Chat [1, 2, 3] =
      ([Inl e1, Inl e2, Inl e3], s'')"
    by (simp add: demo_simps)
  obtain e s1 where l: "loadModel demo_env init_server ''ghost'' Chat 1 = (Inl e, s1)"
    by (simp add: demo_simps)
  have mid: "run demo_env \<lparr>srv = init_server, tasks = []\<rparr>
               [Call ''m'' Chat 1, Call ''m'' Chat 2, Resume 0 3] =
             \<lparr>srv = ?mid,
              tasks = [Returned ?first, AwaitLoad ''models/chat/m.gguf'' Chat]\<rparr>"
    by (simp add: run_def sched_step_def loadModel_call_def loadModel_resume_def demo_simps)
  obtain s3 where r: "loadModel_resume demo_env ?mid (AwaitLoad ''models/chat/m.gguf'' Chat) 4 =
      (Returned ?second, s3)"
    by (simp add: loadModel_resume_def demo_simps)
  have fin: "srv (run demo_env \<lparr>srv = init_server, tasks = []\<rparr>
               [Call ''m'' Chat 1, Call ''m'' Chat 2, Resume 0 3, Resume 1 4]) = s3"
    using r
    by (simp add: run_def sched_step_def loadModel_call_def loadModel_resume_def demo_simps)
  have e0: "engine_loads ''models/chat/m.gguf'' init_server = 0"
    "engine_loads ''models/chat/ghost.gguf'' init_server = 0"
    by (simp_all add: engine_loads_def init_server_def)
  have i0: "loadedModels init_server = []"
    by (simp add: init_server_def)
  note m = acquire_without_coalescing[OF h,
      of "[]" "[]" "AwaitLoad ''models/chat/m.gguf'' Chat" "''models/chat/m.gguf''" Chat _
         ?mid 4 ?second s3 "[1, 2, 3]" "Inr c # rs" s']
  note gh = acquire_without_coalescing[OF g, of "[]" "[]" _ _ _ _ _ 1 _ _
      "[1, 2, 3]" "[Inl e1, Inl e2, Inl e3]" s'' e s1]
  from m a r p e0 have A: "engine_loads ''models/chat/m.gguf'' s' = 1"
    and O: "map_of (loadedModels s3) ''models/chat/m.gguf'' = Some ?second"
    by simp_all
  from gh b l p e0 i0 have B: "engine_loads ''models/chat/ghost.gguf'' s'' = 3"
    and C: "loadedModels s1 = []"
    by simp_all
  from A B C O a b l fin show ?thesis by simp
qed

text \<open>
  C9. Every successful acquisition, a cache hit as well as a fresh load, returns an entry
  whose \<open>lastUsed\<close> is the clock reading of that call, and that entry is the one the cache
  holds for the resolved path afterwards.
\<close>

theorem acquire_refreshes_lastUsed:
  "loadModel env s modelName type now = (Inr c, s') \<Longrightarrow>
   lastUsed c = now \<and> map_of (loadedModels s') (modelPath env modelName type) = Some c"
  by (auto simp: loadModel_def Let_def log_call_def update_conv'
        split: option.splits sum.splits model_type.splits)

theorem acquire_refreshes_lastUsed_witness:
  "lastUsed \<lparr>model = 2, embeddingContext = None, rankingContext = None, lastUsed = 1000007\<rparr>
     = 1000007
   \<and> map_of (loadedModels (snd (loadModel demo_env two_models ''new'' Chat 1000007)))
       (modelPath demo_env ''new'' Chat) =
     Some \<lparr>model = 2, embeddingContext = None, rankingContext = None, lastUsed = 1000007\<rparr>"
proof -
  obtain s' where h: "loadModel demo_env two_models ''new'' Chat 1000007 =
      (Inr \<lparr>model = 2, embeddingContext = None, rankingContext = None, lastUsed = 1000007\<rparr>, s')"
    by (simp add: loadModel_def demo_env_def demo_dirs_def two_models_def modelPath_def
          modelFileName_def endsWith_def Let_def)
  from acquire_refreshes_lastUsed[OF h] h show ?thesis by simp
qed

lemma delete_filter: "AList.delete k al = filter (\<lambda>e. fst e \<noteq> k) al"
  by (induction al) (auto simp: AList.delete_eq)

lemma sweep_entries_models:
  "sweep_entries env now maxAgeMs es s = (None, s') \<Longrightarrow>
   loadedModels s' =
     filter (\<lambda>e. fst e \<notin> set (map fst (filter (\<lambda>e. maxAgeMs < now - lastUsed (snd e)) es)))
       (loadedModels s)"
proof (induction es arbitrary: s)
  case Nil
  then show ?case by simp
next
  case (Cons a es)
  obtain path ctx where a: "a = (path, ctx)" by (cases a)
  show ?case
  proof (cases "now - lastUsed ctx > maxAgeMs")
    case True
    with Cons.prems a have d: "dispose env (model ctx) = None"
      by (auto simp: Let_def split: option.splits)
    let ?s1 = "log_call (Dispose (model ctx)) s"
    let ?s2 = "?s1\<lparr>loadedModels := AList.delete path (loadedModels ?s1)\<rparr>"
    from Cons.prems a True d have "sweep_entries env now maxAgeMs es ?s2 = (None, s')"
      by (simp add: Let_def)
    from Cons.IH[OF this] show ?thesis using True a
      by (simp add: log_call_def delete_filter conj_commute)
  next
    case False
    with Cons.prems a have "sweep_entries env now maxAgeMs es s = (None, s')" by simp
    from Cons.IH[OF this] show ?thesis using False a by simp
  qed
qed

lemma sweep_entries_calls:
  "sweep_entries env now maxAgeMs es s = (None, s') \<Longrightarrow>
   engine_calls s' =
     engine_calls s @
     map (\<lambda>e. Dispose (model (snd e))) (filter (\<lambda>e. maxAgeMs < now - lastUsed (snd e)) es)"
proof (induction es arbitrary: s)
  case Nil
  then show ?case by simp
next
  case (Cons a es)
  obtain path ctx where a: "a = (path, ctx)" by (cases a)
  show ?case
  proof (cases "now - lastUsed ctx > maxAgeMs")
    case True
    with Cons.prems a have d: "dispose env (model ctx) = None"
      by (auto simp: Let_def split: option.splits)
    let ?s1 = "log_call (Dispose (model ctx)) s"
    let ?s2 = "?s1\<lparr>loadedModels := AList.delete path (loadedModels ?s1)\<rparr>"
    from Cons.prems a True d have "sweep_entries env now maxAgeMs es ?s2 = (None, s')"
      by (simp add: Let_def)
    from Cons.IH[OF this] show ?thesis using True a by (simp add: log_call_def)
  next
    case False
    with Cons.prems a have "sweep_entries env now maxAgeMs es s = (None, s')" by simp
    from Cons.IH[OF this] show ?thesis using False a by simp
  qed
qed

lemma distinct_keys_filter:
  assumes "distinct (map fst al)"
  shows "filter (\<lambda>e. fst e \<notin> set (map fst (filter P al))) al = filter (\<lambda>e. \<not> P e) al"
proof (rule filter_cong[OF refl])
  fix e assume e: "e \<in> set al"
  have "\<And>x. x \<in> set al \<Longrightarrow> fst x = fst e \<Longrightarrow> x = e"
    using assms e by (metis eq_key_imp_eq_value prod.collapse)
  then show "(fst e \<notin> set (map fst (filter P al))) = (\<not> P e)"
    using e by force
qed

lemma sweep_completes:
  "\<forall>e \<in> set es. dispose env (model (snd e)) = None \<Longrightarrow>
   \<exists>s'. sweep_entries env now maxAgeMs es s = (None, s')"
  by (induction es arbitrary: s) (auto simp: Let_def)

text \<open>
  C4. After a sweep with threshold \<open>maxAgeMs\<close> that ran to its end at time \<open>now\<close>, the
  cache holds exactly the entries with \<open>now - lastUsed \<le> maxAgeMs\<close>, in their order: an
  entry is retained if and only if it is that fresh, and the models of the others were
  disposed, in the order of the map.
\<close>

theorem sweep_retains_iff_fresh:
  assumes "distinct (map fst (loadedModels s))"
    and "unloadUnusedModels env s maxAgeMs now = (None, s')"
  shows "loadedModels s' = filter (\<lambda>e. now - lastUsed (snd e) \<le> maxAgeMs) (loadedModels s)
       \<and> (\<forall>e \<in> set (loadedModels s).
            (e \<in> set (loadedModels s')) = (now - lastUsed (snd e) \<le> maxAgeMs))
       \<and> engine_calls s' =
           engine_calls s @
           map (\<lambda>e. Dispose (model (snd e)))
             (filter (\<lambda>e. now - lastUsed (snd e) > maxAgeMs) (loadedModels s))"
proof -
  have m: "loadedModels s' =
           filter (\<lambda>e. now - lastUsed (snd e) \<le> maxAgeMs) (loadedModels s)"
    using sweep_entries_models[of env now maxAgeMs "loadedModels s" s s'] assms
      distinct_keys_filter[of "loadedModels s" "\<lambda>e. maxAgeMs < now - lastUsed (snd e)"]
    by (simp add: unloadUnusedModels_def not_less)
  have c: "engine_calls s' =
           engine_calls s @
           map (\<lambda>e. Dispose (model (snd e)))
             (filter (\<lambda>e. now - lastUsed (snd e) > maxAgeMs) (loadedModels s))"
    using sweep_entries_calls[of env now maxAgeMs "loadedModels s" s s'] assms
    by (simp add: unloadUnusedModels_def)
  from m c show ?thesis by simp
qed

theorem sweep_retains_iff_fresh_witness:
  "loadedModels (snd (unloadUnusedModels demo_env two_models 1800000 2000000)) =
     [(''models/chat/new.gguf'',
       \<lparr>model = 2, embeddingContext = None, rankingContext = None, lastUsed = 1000000\<rparr>)]
   \<and> engine_calls (snd (unloadUnusedModels demo_env two_models 1800000 2000000)) = [Dispose 1]"
proof -
  have d: "distinct (map fst (loadedModels two_models))"
    by (simp add: two_models_def)
  obtain s' where h: "unloadUnusedModels demo_env two_models 1800000 2000000 = (None, s')"
    by (simp add: unloadUnusedModels_def two_models_def demo_env_def log_call_def Let_def)
  from sweep_retains_iff_fresh[OF d h] h show ?thesis
    by (simp add: two_models_def)
qed

section \<open>Properties of the handlers\<close>

lemma openai_catch_is_error [simp]:
  "openai_catch e \<noteq> ChatJson cc" "openai_catch e \<noteq> ChatStream frames fin"
  "openai_catch e \<noteq> EmbeddingsJson data m" "openai_catch e \<noteq> RerankJson m rdata"
  "status (openai_catch e) \<noteq> 200"
  by (simp_all add: openai_catch_def)

lemma invalid_request_is_error [simp]:
  "invalid_request msg p \<noteq> ChatJson cc" "invalid_request msg p \<noteq> ChatStream frames fin"
  "invalid_request msg p \<noteq> EmbeddingsJson data m" "invalid_request msg p \<noteq> RerankJson m rdata"
  by (simp_all add: invalid_request_def)

subsection \<open>Chat: sessions, prompt and streaming\<close>

lemma chat_handler_valid:
  assumes "cr_model req = Some m" "m \<noteq> []" "cr_messages req = Some msgs" "msgs \<noteq> []"
  shows "chat_completions_handler env s req now now_id =
     (case loadModel env s m Chat now of
        (Inl e, s1) \<Rightarrow> (openai_catch e, s1)
      | (Inr mc, s1) \<Rightarrow>
          (case createContext env (model mc) of
             Inl e \<Rightarrow> (openai_catch e, log_call (CreateContext (model mc)) s1)
           | Inr ctx \<Rightarrow>
               chat_respond env (log_call (CreateContext (model mc)) s1)
                 \<lparr>systemPrompt = systemPrompt_loop [] msgs, contextSequence = ctx\<rparr>
                 (m, now_id) m msgs
                 (case cr_temperature req of None \<Rightarrow> 0.7 | Some t \<Rightarrow> t)
                 (cr_max_tokens req)
                 (case cr_stream req of None \<Rightarrow> False | Some b \<Rightarrow> b)))"
  using assms
  by (simp add: chat_completions_handler_def Let_def split: prod.splits sum.splits)

lemma chat_handler_invalid:
  assumes "\<not> (\<exists>m msgs. cr_model req = Some m \<and> m \<noteq> [] \<and> cr_messages req = Some msgs
                \<and> msgs \<noteq> [])"
  shows "\<exists>eo. chat_completions_handler env s req now now_id = (ErrorJson 400 eo, s)"
  using assms
  by (auto simp: chat_completions_handler_def invalid_request_def split: option.splits)

text \<open>
  C2. The code does not do what the claim says. Two requests for the same model whose
  \<open>Date.now()\<close> of line 456 reads the same value have the same session key \<open>(''m'', 5)\<close>,
  yet the second finds the map of line 453 empty, calls \<open>createContext\<close> again and prompts
  a session of its own: the engine calls of the second request are a new context and a
  prompt.
\<close>

theorem chat_same_session_key_builds_new_context:
  "(case chat_completions_handler demo_env init_server chat_hi 5 5 of
      (r1, s1) \<Rightarrow>
        (case chat_completions_handler demo_env s1 chat_hi 5 5 of
           (r2, s2) \<Rightarrow> (r1 = r2, drop (length (engine_calls s1)) (engine_calls s2)))) =
   (True, [CreateContext 18, Prompt ''Be brief'' ''hi''])"
  by (simp add: chat_completions_handler_def chat_respond_def chat_hi_def demo_simps)

lemma systemPrompt_loop_filter:
  "systemPrompt_loop sp msgs =
     (case filter (\<lambda>m. role m = ''system'') msgs of
        [] \<Rightarrow> sp
      | m # ms \<Rightarrow> content (last (m # ms)))"
proof (induction msgs arbitrary: sp)
  case Nil
  then show ?case by simp
next
  case (Cons a msgs)
  show ?case by (simp add: Cons.IH split: list.splits)
qed

lemma chat_respond_cong:
  "content (last msgs1) = content (last msgs2) \<Longrightarrow>
   chat_respond env s session sid m msgs1 temp mt stream =
   chat_respond env s session sid m msgs2 temp mt stream"
  by (simp add: chat_respond_def)

lemma chat_handler_same_for_same_last_and_system:
  assumes "msgs1 \<noteq> []" "msgs2 \<noteq> []"
    and "content (last msgs1) = content (last msgs2)"
    and "filter (\<lambda>m. role m = ''system'') msgs1 = filter (\<lambda>m. role m = ''system'') msgs2"
  shows "chat_completions_handler env s (req\<lparr>cr_messages := Some msgs1\<rparr>) now now_id =
         chat_completions_handler env s (req\<lparr>cr_messages := Some msgs2\<rparr>) now now_id"
proof (cases "\<exists>m. cr_model req = Some m \<and> m \<noteq> []")
  case False
  then show ?thesis
    by (auto simp: chat_completions_handler_def truthy_def split: option.splits)
next
  case True
  then obtain m where v: "cr_model req = Some m" "m \<noteq> []" by blast
  have sp: "systemPrompt_loop [] msgs1 = systemPrompt_loop [] msgs2"
    using assms(4) by (simp add: systemPrompt_loop_filter)
  show ?thesis
    using v assms(1,2) sp chat_respond_cong[OF assms(3)]
    by (simp add: chat_handler_valid[where m = m and msgs = msgs1]
          chat_handler_valid[where m = m and msgs = msgs2] split: prod.splits sum.splits)
qed

lemma chat_handler_reaches_prompt:
  assumes v: "cr_model req = Some m" "m \<noteq> []" "cr_messages req = Some msgs" "msgs \<noteq> []"
    and l: "loadModel env s m Chat now = (Inr mc, s0)"
    and c: "createContext env (model mc) = Inr ctx"
    and p: "prompt env \<lparr>systemPrompt = systemPrompt_loop [] msgs, contextSequence = ctx\<rparr>
              (content (last msgs))
              (case cr_temperature req of None \<Rightarrow> 0.7 | Some t \<Rightarrow> t) (cr_max_tokens req) =
            (tokens, outcome)"
  shows "chat_completions_handler env s req now now_id =
     ((if (case cr_stream req of None \<Rightarrow> False | Some b \<Rightarrow> b)
       then (case stream_start (m, now_id) m tokens outcome of
               (frames, fin) \<Rightarrow> ChatStream frames fin)
       else (case outcome of
               Inl e \<Rightarrow> openai_catch e
             | Inr response \<Rightarrow>
                 ChatJson \<lparr>cc_id = (m, now_id), cc_model = m, message_role = ''assistant'',
                            message_content = response, cc_finish_reason = ''stop''\<rparr>)),
      s0\<lparr>engine_calls := engine_calls s0 @
            [CreateContext (model mc),
             Prompt (systemPrompt_loop [] msgs) (content (last msgs))]\<rparr>)"
  using l c p
  by (simp add: chat_handler_valid[OF v] chat_respond_def log_call_def
        split: prod.splits sum.splits)

text \<open>
  C10. Take a chat request with a model name and at least one message, for which the model
  loads and the context is created. What the handler answers is what the engine's
  \<open>prompt\<close> gives for the content of the last message, in a session whose system prompt is
  the content of the last message of role \<open>system\<close> (empty when there is none): the
  returned completion is the \<open>message.content\<close>, the reported chunks make the stream, a
  rejection goes to the \<open>catch\<close> block. The other messages are not read: a request whose
  messages have the same last content and the same messages of role \<open>system\<close> gets the
  same response and leaves the same state.
\<close>

theorem chat_prompt_is_last_message:
  assumes v: "cr_model req = Some m" "m \<noteq> []" "cr_messages req = Some msgs" "msgs \<noteq> []"
    and l: "loadModel env s m Chat now = (Inr mc, s0)"
    and c: "createContext env (model mc) = Inr ctx"
    and sp: "sp = (case filter (\<lambda>m. role m = ''system'') msgs of
                     [] \<Rightarrow> []
                   | x # xs \<Rightarrow> content (last (x # xs)))"
    and p: "prompt env \<lparr>systemPrompt = sp, contextSequence = ctx\<rparr> (content (last msgs))
              (case cr_temperature req of None \<Rightarrow> 0.7 | Some t \<Rightarrow> t) (cr_max_tokens req) =
            (tokens, outcome)"
  shows "chat_completions_handler env s req now now_id =
     ((if (case cr_stream req of None \<Rightarrow> False | Some b \<Rightarrow> b)
       then (case stream_start (m, now_id) m tokens outcome of
               (frames, fin) \<Rightarrow> ChatStream frames fin)
       else (case outcome of
               Inl e \<Rightarrow> openai_catch e
             | Inr response \<Rightarrow>
                 ChatJson \<lparr>cc_id = (m, now_id), cc_model = m, message_role = ''assistant'',
                            message_content = response, cc_finish_reason = ''stop''\<rparr>)),
      s0\<lparr>engine_calls := engine_calls s0 @
            [CreateContext (model mc), Prompt sp (content (last msgs))]\<rparr>)
    \<and> (\<forall>msgs2. msgs2 \<noteq> [] \<and> content (last msgs2) = content (last msgs) \<and>
          filter (\<lambda>m. role m = ''system'') msgs2 = filter (\<lambda>m. role m = ''system'') msgs \<longrightarrow>
          chat_completions_handler env s (req\<lparr>cr_messages := Some msgs2\<rparr>) now now_id =
          chat_completions_handler env s req now now_id)"
proof -
  have s: "systemPrompt_loop [] msgs = sp"
    using sp by (simp add: systemPrompt_loop_filter)
  have req: "req\<lparr>cr_messages := Some msgs\<rparr> = req"
    using v(3) by simp
  have a: "chat_completions_handler env s req now now_id =
     ((if (case cr_stream req of None \<Rightarrow> False | Some b \<Rightarrow> b)
       then (case stream_start (m, now_id) m tokens outcome of
               (frames, fin) \<Rightarrow> ChatStream frames fin)
       else (case outcome of
               Inl e \<Rightarrow> openai_catch e
             | Inr response \<Rightarrow>
                 ChatJson \<lparr>cc_id = (m, now_id), cc_model = m, message_role = ''assistant'',
                            message_content = response, cc_finish_reason = ''stop''\<rparr>)),
      s0\<lparr>engine_calls := engine_calls s0 @
            [CreateContext (model mc), Prompt sp (content (last msgs))]\<rparr>)"
    using chat_handler_reaches_prompt[OF v l c, of tokens outcome now_id] p s by simp
  have b: "\<forall>msgs2. msgs2 \<noteq> [] \<and> content (last msgs2) = content (last msgs) \<and>
          filter (\<lambda>m. role m = ''system'') msgs2 = filter (\<lambda>m. role m = ''system'') msgs \<longrightarrow>
          chat_completions_handler env s (req\<lparr>cr_messages := Some msgs2\<rparr>) now now_id =
          chat_completions_handler env s req now now_id"
  proof (intro allI impI)
    fix msgs2
    assume h: "msgs2 \<noteq> [] \<and> content (last msgs2) = content (last msgs) \<and>
          filter (\<lambda>m. role m = ''system'') msgs2 = filter (\<lambda>m. role m = ''system'') msgs"
    then have "chat_completions_handler env s (req\<lparr>cr_messages := Some msgs2\<rparr>) now now_id =
               chat_completions_handler env s (req\<lparr>cr_messages := Some msgs\<rparr>) now now_id"
      using v(4) by (intro chat_handler_same_for_same_last_and_system) simp_all
    with req show "chat_completions_handler env s (req\<lparr>cr_messages := Some msgs2\<rparr>) now now_id =
          chat_completions_handler env s req now now_id" by simp
  qed
  from a b show ?thesis by blast
qed

theorem chat_prompt_is_last_message_witness:
  "chat_completions_handler echo_env init_server chat_hi 5 5 =
     (ChatJson \<lparr>cc_id = (''m'', 5), cc_model = ''m'', message_role = ''assistant'',
                message_content = ''Echo: Be brief / hi'', cc_finish_reason = ''stop''\<rparr>,
      \<lparr>loadedModels =
         [(''models/chat/m.gguf'',
           \<lparr>model = 18, embeddingContext = None, rankingContext = None, lastUsed = 5\<rparr>)],
       engine_calls =
         [LoadModel ''models/chat/m.gguf'', CreateContext 18, Prompt ''Be brief'' ''hi'']\<rparr>)
   \<and> chat_completions_handler echo_env init_server
       (chat_hi\<lparr>cr_messages := Some [\<lparr>role = ''system'', content = ''Be brief''\<rparr>,
                                       \<lparr>role = ''user'', content = ''What is 2+2?''\<rparr>,
                                       \<lparr>role = ''assistant'', content = ''4''\<rparr>,
                                       \<lparr>role = ''user'', content = ''hi''\<rparr>]\<rparr>) 5 5 =
     chat_completions_handler echo_env init_server chat_hi 5 5"
proof -
  let ?msgs = "[\<lparr>role = ''system'', content = ''Be brief''\<rparr>, \<lparr>role = ''user'', content = ''hi''\<rparr>]"
  let ?msgs2 = "[\<lparr>role = ''system'', content = ''Be brief''\<rparr>,
                 \<lparr>role = ''user'', content = ''What is 2+2?''\<rparr>,
                 \<lparr>role = ''assistant'', content = ''4''\<rparr>,
                 \<lparr>role = ''user'', content = ''hi''\<rparr>]"
  let ?mc = "\<lparr>model = 18, embeddingContext = None, rankingContext = None, lastUsed = 5\<rparr>"
  let ?s0 = "\<lparr>loadedModels = [(''models/chat/m.gguf'', ?mc)],
              engine_calls = [LoadModel ''models/chat/m.gguf'']\<rparr>"
  have v: "cr_model chat_hi = Some ''m''" "''m'' \<noteq> []" "cr_messages chat_hi = Some ?msgs"
    "?msgs \<noteq> []"
    by (simp_all add: chat_hi_def)
  have l: "loadModel echo_env init_server ''m'' Chat 5 = (Inr ?mc, ?s0)"
    by (simp add: echo_env_def demo_simps)
  have c: "createContext echo_env (model ?mc) = Inr 21"
    by (simp add: echo_env_def demo_env_def)
  have sp: "''Be brief'' = (case filter (\<lambda>m. role m = ''system'') ?msgs of
                     [] \<Rightarrow> []
                   | x # xs \<Rightarrow> content (last (x # xs)))"
    by simp
  have p: "prompt echo_env \<lparr>systemPrompt = ''Be brief'', contextSequence = 21\<rparr>
             (content (last ?msgs))
             (case cr_temperature chat_hi of None \<Rightarrow> 0.7 | Some t \<Rightarrow> t) (cr_max_tokens chat_hi) =
           ([''Echo'', '': '', ''Be brief'', '' / '', ''hi''], Inr ''Echo: Be brief / hi'')"
    by (simp add: echo_env_def demo_env_def)
  note k = chat_prompt_is_last_message[OF v l c sp p, of 5]
  from k have a: "chat_completions_handler echo_env init_server chat_hi 5 5 =
     (ChatJson \<lparr>cc_id = (''m'', 5), cc_model = ''m'', message_role = ''assistant'',
                message_content = ''Echo: Be brief / hi'', cc_finish_reason = ''stop''\<rparr>,
      \<lparr>loadedModels = [(''models/chat/m.gguf'', ?mc)],
       engine_calls =
         [LoadModel ''models/chat/m.gguf'', CreateContext 18, Prompt ''Be brief'' ''hi'']\<rparr>)"
    by (simp add: chat_hi_def)
  from k have "?msgs2 \<noteq> [] \<and> content (last ?msgs2) = content (last ?msgs) \<and>
      filter (\<lambda>m. role m = ''system'') ?msgs2 = filter (\<lambda>m. role m = ''system'') ?msgs \<longrightarrow>
      chat_completions_handler echo_env init_server (chat_hi\<lparr>cr_messages := Some ?msgs2\<rparr>) 5 5 =
      chat_completions_handler echo_env init_server chat_hi 5 5"
    by blast
  then have b: "chat_completions_handler echo_env init_server
                  (chat_hi\<lparr>cr_messages := Some ?msgs2\<rparr>) 5 5 =
                chat_completions_handler echo_env init_server chat_hi 5 5"
    by simp
  from a b show ?thesis by simp
qed

lemma delta_contents_append:
  "delta_contents (xs @ ys) = delta_contents xs @ delta_contents ys"
  by (induction xs rule: delta_contents.induct) simp_all

lemma onTextChunk_keeps_text:
  "delta_contents (snd (onTextChunk sid m st token)) @ fst (onTextChunk sid m st token) =
   delta_contents (snd st) @ fst st @ token"
  by (simp add: onTextChunk_def Let_def delta_contents_append)

lemma foldl_onTextChunk_keeps_text:
  "delta_contents (snd (foldl (onTextChunk sid m) st tokens)) @
     fst (foldl (onTextChunk sid m) st tokens) =
   delta_contents (snd st) @ fst st @ concat tokens"
proof (induction tokens arbitrary: st)
  case Nil
  then show ?case by simp
next
  case (Cons t ts)
  show ?case
    using Cons.IH[of "onTextChunk sid m st t"] onTextChunk_keeps_text[of sid m st t]
    by simp
qed

lemma stream_start_text:
  assumes "stream_start sid m tokens (Inr r) = (frames, fin)"
  shows "delta_contents frames = concat tokens \<and> fin = Closed \<and> last frames = DONE"
proof -
  obtain buffer out where f: "foldl (onTextChunk sid m) ([], []) tokens = (buffer, out)"
    by (cases "foldl (onTextChunk sid m) ([], []) tokens")
  have k: "delta_contents out @ buffer = concat tokens"
    using foldl_onTextChunk_keeps_text[of sid m "([], [])" tokens] f by simp
  show ?thesis
    using assms f k by (auto simp: stream_start_def delta_contents_append)
qed

text \<open>
  C5. Take a chat request with a model name and at least one message, for which the model
  loads and the context is created, and an engine whose \<open>prompt\<close> returns the text that it
  reported chunk by chunk. Sent with \<open>stream\<close> set, the request gets a stream that is
  closed and ends with \<open>[DONE]\<close>; sent without, on the same state, it gets a completion
  whose \<open>message.content\<close> is the engine's response; and the \<open>delta.content\<close> fields of
  the streamed chunks, concatenated in order, are that same text.
\<close>

theorem stream_text_equals_message_content:
  assumes v: "cr_model req = Some m" "m \<noteq> []" "cr_messages req = Some msgs" "msgs \<noteq> []"
    and l: "loadModel env s m Chat now = (Inr mc, s0)"
    and c: "createContext env (model mc) = Inr ctx"
    and p: "prompt env \<lparr>systemPrompt = systemPrompt_loop [] msgs, contextSequence = ctx\<rparr>
              (content (last msgs))
              (case cr_temperature req of None \<Rightarrow> 0.7 | Some t \<Rightarrow> t) (cr_max_tokens req) =
            (tokens, Inr response)"
    and contract: "response = concat tokens"
  shows "\<exists>frames s1 s2.
           chat_completions_handler env s (req\<lparr>cr_stream := Some True\<rparr>) now now_id =
             (ChatStream frames Closed, s1) \<and>
           chat_completions_handler env s (req\<lparr>cr_stream := Some False\<rparr>) now now_id =
             (ChatJson \<lparr>cc_id = (m, now_id), cc_model = m, message_role = ''assistant'',
                        message_content = response, cc_finish_reason = ''stop''\<rparr>, s2) \<and>
           delta_contents frames = response \<and> last frames = DONE"
proof -
  obtain frames fin where ss: "stream_start (m, now_id) m tokens (Inr response) = (frames, fin)"
    by (cases "stream_start (m, now_id) m tokens (Inr response)")
  from stream_start_text[OF ss] contract
  have k: "delta_contents frames = response" "fin = Closed" "last frames = DONE" by simp_all
  let ?s = "s0\<lparr>engine_calls := engine_calls s0 @
            [CreateContext (model mc),
             Prompt (systemPrompt_loop [] msgs) (content (last msgs))]\<rparr>"
  have a: "chat_completions_handler env s (req\<lparr>cr_stream := Some True\<rparr>) now now_id =
        (ChatStream frames Closed, ?s)"
    using chat_handler_reaches_prompt[of "req\<lparr>cr_stream := Some True\<rparr>" m msgs env s now mc s0
        ctx tokens "Inr response" now_id] v l c p ss k
    by simp
  have b: "chat_completions_handler env s (req\<lparr>cr_stream := Some False\<rparr>) now now_id =
        (ChatJson \<lparr>cc_id = (m, now_id), cc_model = m, message_role = ''assistant'',
                        message_content = response, cc_finish_reason = ''stop''\<rparr>, ?s)"
    using chat_handler_reaches_prompt[of "req\<lparr>cr_stream := Some False\<rparr>" m msgs env s now mc s0
        ctx tokens "Inr response" now_id] v l c p
    by simp
  from a b k show ?thesis by blast
qed

theorem stream_text_equals_message_content_witness:
  "fst (chat_completions_handler echo_env init_server (chat_hi\<lparr>cr_stream := Some True\<rparr>) 5 5) =
     ChatStream
       [Data \<lparr>chunk_id = (''m'', 5), chunk_model = ''m'', delta_content = ''Echo: '',
              finish_reason = None\<rparr>,
        Data \<lparr>chunk_id = (''m'', 5), chunk_model = ''m'', delta_content = ''Be brief'',
              finish_reason = None\<rparr>,
        Data \<lparr>chunk_id = (''m'', 5), chunk_model = ''m'', delta_content = '' / '',
              finish_reason = None\<rparr>,
        Data \<lparr>chunk_id = (''m'', 5), chunk_model = ''m'', delta_content = ''hi'',
              finish_reason = Some ''stop''\<rparr>,
        DONE] Closed
   \<and> fst (chat_completions_handler echo_env init_server (chat_hi\<lparr>cr_stream := Some False\<rparr>) 5 5) =
     ChatJson \<lparr>cc_id = (''m'', 5), cc_model = ''m'', message_role = ''assistant'',
               message_content = ''Echo: Be brief / hi'', cc_finish_reason = ''stop''\<rparr>
   \<and> (\<exists>frames s1 s2.
        chat_completions_handler echo_env init_server (chat_hi\<lparr>cr_stream := Some True\<rparr>) 5 5 =
          (ChatStream frames Closed, s1) \<and>
        chat_completions_handler echo_env init_server (chat_hi\<lparr>cr_stream := Some False\<rparr>) 5 5 =
          (ChatJson \<lparr>cc_id = (''m'', 5), cc_model = ''m'', message_role = ''assistant'',
                     message_content = ''Echo: Be brief / hi'', cc_finish_reason = ''stop''\<rparr>, s2) \<and>
        delta_contents frames = ''Echo: Be brief / hi'' \<and> last frames = DONE)"
proof -
  let ?msgs = "[\<lparr>role = ''system'', content = ''Be brief''\<rparr>, \<lparr>role = ''user'', content = ''hi''\<rparr>]"
  let ?mc = "\<lparr>model = 18, embeddingContext = None, rankingContext = None, lastUsed = 5\<rparr>"
  let ?s0 = "\<lparr>loadedModels = [(''models/chat/m.gguf'', ?mc)],
              engine_calls = [LoadModel ''models/chat/m.gguf'']\<rparr>"
  let ?tokens = "[''Echo'', '': '', ''Be brief'', '' / '', ''hi'']"
  have v: "cr_model chat_hi = Some ''m''" "''m'' \<noteq> []" "cr_messages chat_hi = Some ?msgs"
    "?msgs \<noteq> []"
    by (simp_all add: chat_hi_def)
  have l: "loadModel echo_env init_server ''m'' Chat 5 = (Inr ?mc, ?s0)"
    by (simp add: echo_env_def demo_simps)
  have c: "createContext echo_env (model ?mc) = Inr 21"
    by (simp add: echo_env_def demo_env_def)
  have p: "prompt echo_env \<lparr>systemPrompt = systemPrompt_loop [] ?msgs, contextSequence = 21\<rparr>
             (content (last ?msgs))
             (case cr_temperature chat_hi of None \<Rightarrow> 0.7 | Some t \<Rightarrow> t) (cr_max_tokens chat_hi) =
           (?tokens, Inr ''Echo: Be brief / hi'')"
    by (simp add: echo_env_def demo_env_def)
  have k: "''Echo: Be brief / hi'' = concat ?tokens"
    by simp
  have a: "fst (chat_completions_handler echo_env init_server
                  (chat_hi\<lparr>cr_stream := Some True\<rparr>) 5 5) =
     ChatStream
       [Data \<lparr>chunk_id = (''m'', 5), chunk_model = ''m'', delta_content = ''Echo: '',
              finish_reason = None\<rparr>,
        Data \<lparr>chunk_id = (''m'', 5), chunk_model = ''m'', delta_content = ''Be brief'',
              finish_reason = None\<rparr>,
        Data \<lparr>chunk_id = (''m'', 5), chunk_model = ''m'', delta_content = '' / '',
              finish_reason = None\<rparr>,
        Data \<lparr>chunk_id = (''m'', 5), chunk_model = ''m'', delta_content = ''hi'',
              finish_reason = Some ''stop''\<rparr>,
        DONE] Closed"
    by (simp add: chat_completions_handler_def chat_respond_def stream_start_def onTextChunk_def
          chat_hi_def echo_env_def demo_simps)
  note t = stream_text_equals_message_content[OF v l c p k, of 5]
  from t have b: "fst (chat_completions_handler echo_env init_server
                         (chat_hi\<lparr>cr_stream := Some False\<rparr>) 5 5) =
     ChatJson \<lparr>cc_id = (''m'', 5), cc_model = ''m'', message_role = ''assistant'',
               message_content = ''Echo: Be brief / hi'', cc_finish_reason = ''stop''\<rparr>"
    by auto
  from a b t show ?thesis by blast
qed

subsection \<open>Embeddings\<close>

lemma embed_loop_shape:
  "embed_loop env ectx xs acc = Inr data \<Longrightarrow>
   \<exists>new. data = acc @ new \<and> length new = length xs \<and>
     (\<forall>i < length xs. ei_index (new ! i) = length acc + i \<and>
        getEmbeddingFor env ectx (xs ! i) = Inr (ei_embedding (new ! i)))"
proof (induction xs arbitrary: acc)
  case Nil
  then show ?case by simp
next
  case (Cons x xs)
  from Cons.prems obtain v where v: "getEmbeddingFor env ectx x = Inr v"
    and r: "embed_loop env ectx xs (acc @ [\<lparr>ei_embedding = v, ei_index = length acc\<rparr>]) = Inr data"
    by (auto split: sum.splits)
  let ?acc = "acc @ [\<lparr>ei_embedding = v, ei_index = length acc\<rparr>]"
  from Cons.IH[OF r] obtain new where n: "data = ?acc @ new" "length new = length xs"
    "\<forall>i < length xs. ei_index (new ! i) = length ?acc + i \<and>
        getEmbeddingFor env ectx (xs ! i) = Inr (ei_embedding (new ! i))"
    by blast
  let ?new = "\<lparr>ei_embedding = v, ei_index = length acc\<rparr> # new"
  have "data = acc @ ?new" using n(1) by simp
  moreover have "length ?new = length (x # xs)" using n(2) by simp
  moreover have "\<forall>i < length (x # xs). ei_index (?new ! i) = length acc + i \<and>
        getEmbeddingFor env ectx ((x # xs) ! i) = Inr (ei_embedding (?new ! i))"
  proof (intro allI impI)
    fix i assume "i < length (x # xs)"
    then show "ei_index (?new ! i) = length acc + i \<and>
        getEmbeddingFor env ectx ((x # xs) ! i) = Inr (ei_embedding (?new ! i))"
      using n(3) v by (cases i) auto
  qed
  ultimately show ?case by blast
qed

lemma embeddings_handler_success:
  assumes "embeddings_handler env s req now = (EmbeddingsJson data m, s')"
  shows "\<exists>input mc ectx. er_model req = Some m \<and> er_input req = Some input \<and>
           loadModel env s m Embedding now = (Inr mc, s') \<and> embeddingContext mc = Some ectx \<and>
           embed_loop env ectx (inputs_of input) [] = Inr data"
  using assms
  by (auto simp: embeddings_handler_def split: if_splits option.splits prod.splits sum.splits)

lemma embed_loop_total:
  "\<forall>x \<in> set xs. getEmbeddingFor env ectx x = Inr (v x) \<Longrightarrow>
   embed_loop env ectx xs acc =
     Inr (acc @ map (\<lambda>i. \<lparr>ei_embedding = v (xs ! i), ei_index = length acc + i\<rparr>) [0..<length xs])"
proof (induction xs arbitrary: acc)
  case Nil
  then show ?case by simp
next
  case (Cons x xs)
  have "map (\<lambda>i. \<lparr>ei_embedding = v ((x # xs) ! i), ei_index = length acc + i\<rparr>)
          [0..<length (x # xs)] =
        \<lparr>ei_embedding = v x, ei_index = length acc\<rparr> #
        map (\<lambda>i. \<lparr>ei_embedding = v (xs ! i), ei_index = Suc (length acc) + i\<rparr>) [0..<length xs]"
    by (simp add: upt_conv_Cons map_Suc_upt[symmetric] del: upt_Suc)
  with Cons show ?case by simp
qed

lemma embeddings_handler_total:
  assumes m: "m \<noteq> []"
    and l: "loadModel env s m Embedding now = (Inr mc, s')" "embeddingContext mc = Some ectx"
    and i: "input = Arr xs \<or> (\<exists>x. x \<noteq> [] \<and> input = Str x \<and> xs = [x])"
    and e: "\<forall>x \<in> set xs. getEmbeddingFor env ectx x = Inr (v x)"
  shows "embeddings_handler env s \<lparr>er_model = Some m, er_input = Some input\<rparr> now =
           (EmbeddingsJson
              (map (\<lambda>i. \<lparr>ei_embedding = v (xs ! i), ei_index = i\<rparr>) [0..<length xs]) m, s')"
proof -
  have t: "truthy_input (Some input)" and x: "inputs_of input = xs"
    using i by (auto simp: truthy_input_def inputs_of_def)
  have "embed_loop env ectx xs [] =
        Inr (map (\<lambda>i. \<lparr>ei_embedding = v (xs ! i), ei_index = i\<rparr>) [0..<length xs])"
    using embed_loop_total[OF e, of "[]"] by simp
  then show ?thesis
    using m l t x by (simp add: embeddings_handler_def truthy_def)
qed

lemma embeddings_handler_data:
  assumes "embeddings_handler env s req now = (EmbeddingsJson data m, s')"
  shows "\<exists>xs mc ectx.
           (er_input req = Some (Arr xs) \<or> (\<exists>x. er_input req = Some (Str x) \<and> xs = [x])) \<and>
           fst (loadModel env s m Embedding now) = Inr mc \<and> embeddingContext mc = Some ectx \<and>
           length data = length xs \<and>
           (\<forall>i < length xs. ei_index (data ! i) = i \<and>
              getEmbeddingFor env ectx (xs ! i) = Inr (ei_embedding (data ! i)))"
proof -
  from embeddings_handler_success[OF assms] obtain input mc ectx where
    h: "er_input req = Some input" "loadModel env s m Embedding now = (Inr mc, s')"
       "embeddingContext mc = Some ectx" "embed_loop env ectx (inputs_of input) [] = Inr data"
    by blast
  have "er_input req = Some (Arr (inputs_of input)) \<or>
        (\<exists>x. er_input req = Some (Str x) \<and> inputs_of input = [x])"
    using h(1) by (cases input) (simp_all add: inputs_of_def)
  moreover from embed_loop_shape[OF h(4)] have "length data = length (inputs_of input) \<and>
           (\<forall>i < length (inputs_of input). ei_index (data ! i) = i \<and>
              getEmbeddingFor env ectx (inputs_of input ! i) = Inr (ei_embedding (data ! i)))"
    by auto
  ultimately show ?thesis using h(2,3) by (intro exI[of _ "inputs_of input"]) auto
qed

text \<open>
  C6. Let the input of an embeddings request be the array \<open>xs\<close>, or one non-empty string
  \<open>x\<close>, in which case \<open>xs\<close> is the list of that one string. If the model loads with an
  embedding context that embeds every element of \<open>xs\<close>, the response is the data list
  with exactly one entry for each element of \<open>xs\<close>, in the order of \<open>xs\<close>: the entry at
  position \<open>i\<close> has index \<open>i\<close> and holds the vector of \<open>xs ! i\<close>. And whenever the handler
  answers such a request with data at all, the data has that many entries, index \<open>i\<close> at
  position \<open>i\<close>, and the vector there is what the loaded model's embedding context
  returned for \<open>xs ! i\<close>.
\<close>

theorem embeddings_in_input_order:
  assumes i: "input = Arr xs \<or> (\<exists>x. x \<noteq> [] \<and> input = Str x \<and> xs = [x])"
  shows "(m \<noteq> [] \<and> loadModel env s m Embedding now = (Inr mc, s') \<and>
          embeddingContext mc = Some ectx \<and>
          (\<forall>x \<in> set xs. getEmbeddingFor env ectx x = Inr (v x)) \<longrightarrow>
            (\<exists>data. embeddings_handler env s \<lparr>er_model = Some m, er_input = Some input\<rparr> now =
                      (EmbeddingsJson data m, s') \<and>
               length data = length xs \<and>
               (\<forall>i < length xs. data ! i = \<lparr>ei_embedding = v (xs ! i), ei_index = i\<rparr>)))
       \<and> (\<forall>mo data2 m2 s2.
            embeddings_handler env s \<lparr>er_model = mo, er_input = Some input\<rparr> now =
              (EmbeddingsJson data2 m2, s2) \<longrightarrow>
            (\<exists>mc2 ectx2. fst (loadModel env s m2 Embedding now) = Inr mc2 \<and>
               embeddingContext mc2 = Some ectx2 \<and> length data2 = length xs \<and>
               (\<forall>i < length xs. ei_index (data2 ! i) = i \<and>
                  getEmbeddingFor env ectx2 (xs ! i) = Inr (ei_embedding (data2 ! i)))))"
proof (intro conjI impI allI)
  assume h: "m \<noteq> [] \<and> loadModel env s m Embedding now = (Inr mc, s') \<and>
          embeddingContext mc = Some ectx \<and>
          (\<forall>x \<in> set xs. getEmbeddingFor env ectx x = Inr (v x))"
  then have "embeddings_handler env s \<lparr>er_model = Some m, er_input = Some input\<rparr> now =
           (EmbeddingsJson
              (map (\<lambda>i. \<lparr>ei_embedding = v (xs ! i), ei_index = i\<rparr>) [0..<length xs]) m, s')"
    using embeddings_handler_total[OF _ _ _ i, of m env s now mc s' ectx v] by blast
  then show "\<exists>data. embeddings_handler env s \<lparr>er_model = Some m, er_input = Some input\<rparr> now =
                      (EmbeddingsJson data m, s') \<and>
               length data = length xs \<and>
               (\<forall>i < length xs. data ! i = \<lparr>ei_embedding = v (xs ! i), ei_index = i\<rparr>)"
    by auto
next
  fix mo data2 m2 s2
  assume h: "embeddings_handler env s \<lparr>er_model = mo, er_input = Some input\<rparr> now =
              (EmbeddingsJson data2 m2, s2)"
  from embeddings_handler_data[OF h] obtain ys mc2 ectx2 where
    y: "input = Arr ys \<or> (\<exists>x. input = Str x \<and> ys = [x])"
       "fst (loadModel env s m2 Embedding now) = Inr mc2" "embeddingContext mc2 = Some ectx2"
       "length data2 = length ys"
       "\<forall>i < length ys. ei_index (data2 ! i) = i \<and>
              getEmbeddingFor env ectx2 (ys ! i) = Inr (ei_embedding (data2 ! i))"
    by auto
  from y(1) i have "ys = xs" by auto
  with y show "\<exists>mc2 ectx2. fst (loadModel env s m2 Embedding now) = Inr mc2 \<and>
               embeddingContext mc2 = Some ectx2 \<and> length data2 = length xs \<and>
               (\<forall>i < length xs. ei_index (data2 ! i) = i \<and>
                  getEmbeddingFor env ectx2 (xs ! i) = Inr (ei_embedding (data2 ! i)))"
    by blast
qed

theorem embeddings_in_input_order_witness:
  "fst (embeddings_handler demo_env init_server
          \<lparr>er_model = Some ''e'', er_input = Some (Arr [''a'', ''bb''])\<rparr> 5) =
     EmbeddingsJson [\<lparr>ei_embedding = [1, 1], ei_index = 0\<rparr>,
                     \<lparr>ei_embedding = [2, 1], ei_index = 1\<rparr>] ''e''
   \<and> fst (embeddings_handler demo_env init_server
            \<lparr>er_model = Some ''e'', er_input = Some (Str ''text'')\<rparr> 5) =
     EmbeddingsJson [\<lparr>ei_embedding = [4, 1], ei_index = 0\<rparr>] ''e''
   \<and> (\<exists>data s'. embeddings_handler demo_env init_server
                   \<lparr>er_model = Some ''e'', er_input = Some (Str ''text'')\<rparr> 5 =
                     (EmbeddingsJson data ''e'', s') \<and>
         length data = length [''text''] \<and>
         (\<forall>i < length [''text''].
            data ! i = \<lparr>ei_embedding = [real (length ([''text''] ! i)), 1], ei_index = i\<rparr>))
   \<and> (\<exists>data s'. embeddings_handler demo_env init_server
                   \<lparr>er_model = Some ''e'', er_input = Some (Arr [''a'', ''bb''])\<rparr> 5 =
                     (EmbeddingsJson data ''e'', s') \<and>
         length data = length [''a'', ''bb''] \<and>
         (\<forall>i < length [''a'', ''bb''].
            data ! i = \<lparr>ei_embedding = [real (length ([''a'', ''bb''] ! i)), 1], ei_index = i\<rparr>))"
proof -
  let ?mc = "\<lparr>model = 23, embeddingContext = Some 24, rankingContext = None, lastUsed = 5\<rparr>"
  let ?v = "\<lambda>x :: string. [real (length x), 1]"
  obtain s' where l: "loadModel demo_env init_server ''e'' Embedding 5 = (Inr ?mc, s')"
    by (simp add: demo_simps)
  have e: "\<And>x. getEmbeddingFor demo_env 24 x = Inr (?v x)"
    by (simp add: demo_env_def)
  have i1: "Str ''text'' = Arr [''text''] \<or>
            (\<exists>x. x \<noteq> [] \<and> Str ''text'' = Str x \<and> [''text''] = [x])"
    by simp
  have i2: "Arr [''a'', ''bb''] = Arr [''a'', ''bb''] \<or>
            (\<exists>x. x \<noteq> [] \<and> Arr [''a'', ''bb''] = Str x \<and> [''a'', ''bb''] = [x])"
    by simp
  have h1: "''e'' \<noteq> [] \<and> loadModel demo_env init_server ''e'' Embedding 5 = (Inr ?mc, s') \<and>
          embeddingContext ?mc = Some 24 \<and>
          (\<forall>x \<in> set [''text'']. getEmbeddingFor demo_env 24 x = Inr (?v x))"
    using l e by simp
  have h2: "''e'' \<noteq> [] \<and> loadModel demo_env init_server ''e'' Embedding 5 = (Inr ?mc, s') \<and>
          embeddingContext ?mc = Some 24 \<and>
          (\<forall>x \<in> set [''a'', ''bb'']. getEmbeddingFor demo_env 24 x = Inr (?v x))"
    using l e by simp
  have a: "\<exists>data. embeddings_handler demo_env init_server
                   \<lparr>er_model = Some ''e'', er_input = Some (Str ''text'')\<rparr> 5 =
                     (EmbeddingsJson data ''e'', s') \<and>
         length data = length [''text''] \<and>
         (\<forall>i < length [''text''].
            data ! i = \<lparr>ei_embedding = [real (length ([''text''] ! i)), 1], ei_index = i\<rparr>)"
    using embeddings_in_input_order[OF i1, of "''e''" demo_env init_server 5 ?mc s' 24 ?v,
        THEN conjunct1, THEN mp, OF h1] .
  have b: "\<exists>data. embeddings_handler demo_env init_server
                   \<lparr>er_model = Some ''e'', er_input = Some (Arr [''a'', ''bb''])\<rparr> 5 =
                     (EmbeddingsJson data ''e'', s') \<and>
         length data = length [''a'', ''bb''] \<and>
         (\<forall>i < length [''a'', ''bb''].
            data ! i = \<lparr>ei_embedding = [real (length ([''a'', ''bb''] ! i)), 1], ei_index = i\<rparr>)"
    using embeddings_in_input_order[OF i2, of "''e''" demo_env init_server 5 ?mc s' 24 ?v,
        THEN conjunct1, THEN mp, OF h2] .
  have c: "fst (embeddings_handler demo_env init_server
          \<lparr>er_model = Some ''e'', er_input = Some (Arr [''a'', ''bb''])\<rparr> 5) =
     EmbeddingsJson [\<lparr>ei_embedding = [1, 1], ei_index = 0\<rparr>,
                     \<lparr>ei_embedding = [2, 1], ei_index = 1\<rparr>] ''e''"
    by (simp add: embeddings_handler_def truthy_def truthy_input_def inputs_of_def demo_simps)
  have d: "fst (embeddings_handler demo_env init_server
            \<lparr>er_model = Some ''e'', er_input = Some (Str ''text'')\<rparr> 5) =
     EmbeddingsJson [\<lparr>ei_embedding = [4, 1], ei_index = 0\<rparr>] ''e''"
    by (simp add: embeddings_handler_def truthy_def truthy_input_def inputs_of_def demo_simps)
  from a b c d show ?thesis by blast
qed

subsection \<open>Rerank\<close>

lemma length_rerank_data [simp]: "length (rerank_data res) = length res"
  by (simp add: rerank_data_def)

lemma nth_rerank_data:
  "i < length res \<Longrightarrow>
   rerank_data res ! i =
     \<lparr>document = fst (res ! i), relevance_score = snd (res ! i), ri_index = i\<rparr>"
  by (simp add: rerank_data_def nth_enumerate_eq)

lemma rerank_data_scores: "map relevance_score (rerank_data res) = map snd res"
  by (rule nth_equalityI) (simp_all add: nth_rerank_data)

lemma rerank_data_documents: "map document (rerank_data res) = map fst res"
  by (rule nth_equalityI) (simp_all add: nth_rerank_data)

lemma rerank_handler_success:
  assumes "rerank_handler env s req now = (RerankJson m data, s')"
  shows "\<exists>rctx q docs res. rr_query req = Some q \<and> rr_documents req = Some docs \<and>
           rankAndSort env rctx q docs = Inr res \<and> data = rerank_data res"
  using assms
  by (auto simp: rerank_handler_def split: if_splits option.splits prod.splits sum.splits)

lemma descending_rev_sort_key:
  "sorted_wrt (\<lambda>a b. a \<ge> b) (map snd (rev (sort_key snd (xs :: (string \<times> real) list))))"
proof -
  have "sorted (map snd (sort_key snd xs))" by (rule sorted_sort_key)
  then have "sorted_wrt (\<lambda>a b. a \<ge> b) (rev (map snd (sort_key snd xs)))"
    by (simp add: sorted_wrt_rev)
  then show ?thesis by (simp add: rev_map)
qed

text \<open>
  C7. Take an engine whose \<open>rankAndSort\<close> returns its results by descending score. Then the
  data of every rerank response is in descending order of \<open>relevance_score\<close>, it is the
  engine's list of documents and scores in the engine's order, and the index of each entry
  is its position in that order.
\<close>

theorem rerank_sorted_index_is_rank:
  assumes contract: "\<forall>rctx q docs res. rankAndSort env rctx q docs = Inr res \<longrightarrow>
             sorted_wrt (\<lambda>a b. a \<ge> b) (map snd res)"
    and h: "rerank_handler env s req now = (RerankJson m data, s')"
  shows "sorted_wrt (\<lambda>a b. a \<ge> b) (map relevance_score data)
       \<and> (\<forall>i < length data. ri_index (data ! i) = i)
       \<and> (\<exists>rctx q docs res. rr_query req = Some q \<and> rr_documents req = Some docs \<and>
             rankAndSort env rctx q docs = Inr res \<and>
             map document data = map fst res \<and> map relevance_score data = map snd res)"
proof -
  from rerank_handler_success[OF h] obtain rctx q docs res where
    r: "rr_query req = Some q" "rr_documents req = Some docs"
       "rankAndSort env rctx q docs = Inr res" and d: "data = rerank_data res"
    by blast
  from contract r(3) have "sorted_wrt (\<lambda>a b. a \<ge> b) (map snd res)" by blast
  then have "sorted_wrt (\<lambda>a b. a \<ge> b) (map relevance_score data)
       \<and> (\<forall>i < length data. ri_index (data ! i) = i)"
    using d by (simp add: rerank_data_scores nth_rerank_data)
  moreover have "map document data = map fst res \<and> map relevance_score data = map snd res"
    using d by (simp add: rerank_data_scores rerank_data_documents)
  ultimately show ?thesis using r by blast
qed

theorem rerank_sorted_index_is_rank_witness:
  "fst (rerank_handler demo_env init_server
          \<lparr>rr_model = Some ''r'', rr_query = Some ''q'',
           rr_documents = Some [''a'', ''ccc'', ''bb'']\<rparr> 5) =
     RerankJson ''r''
       [\<lparr>document = ''ccc'', relevance_score = 3, ri_index = 0\<rparr>,
        \<lparr>document = ''bb'', relevance_score = 2, ri_index = 1\<rparr>,
        \<lparr>document = ''a'', relevance_score = 1, ri_index = 2\<rparr>]
   \<and> sorted_wrt (\<lambda>a b. a \<ge> b)
       (map relevance_score
          [\<lparr>document = ''ccc'', relevance_score = 3, ri_index = 0\<rparr>,
           \<lparr>document = ''bb'', relevance_score = 2, ri_index = 1\<rparr>,
           \<lparr>document = ''a'', relevance_score = 1, ri_index = 2\<rparr>])"
proof -
  have c: "\<forall>rctx q docs res. rankAndSort demo_env rctx q docs = Inr res \<longrightarrow>
             sorted_wrt (\<lambda>a b. a \<ge> b) (map snd res)"
    using descending_rev_sort_key by (auto simp: demo_env_def)
  obtain s' where h: "rerank_handler demo_env init_server
          \<lparr>rr_model = Some ''r'', rr_query = Some ''q'',
           rr_documents = Some [''a'', ''ccc'', ''bb'']\<rparr> 5 =
     (RerankJson ''r''
       [\<lparr>document = ''ccc'', relevance_score = 3, ri_index = 0\<rparr>,
        \<lparr>document = ''bb'', relevance_score = 2, ri_index = 1\<rparr>,
        \<lparr>document = ''a'', relevance_score = 1, ri_index = 2\<rparr>], s')"
    by (simp add: rerank_handler_def rerank_data_def enumerate_eq_zip upt_rec demo_simps)
  from rerank_sorted_index_is_rank[OF c h] h show ?thesis by simp
qed

subsection \<open>Load failures\<close>

lemma loadModel_engine_failure:
  "map_of (loadedModels s) (modelPath env m T) = None \<Longrightarrow>
   llama_loadModel env (modelPath env m T) = Inl e \<Longrightarrow>
   loadModel env s m T now = (Inl e, log_call (LoadModel (modelPath env m T)) s)"
  by (simp add: loadModel_def Let_def)

lemma embeddings_load_failure:
  "er_model req = Some m \<Longrightarrow> m \<noteq> [] \<Longrightarrow> truthy_input (er_input req) \<Longrightarrow>
   loadModel env s m Embedding now = (Inl e, s1) \<Longrightarrow>
   embeddings_handler env s req now = (openai_catch e, s1)"
  by (auto simp: embeddings_handler_def truthy_def truthy_input_def split: option.splits)

lemma rerank_load_failure:
  "rr_model req = Some m \<Longrightarrow> m \<noteq> [] \<Longrightarrow> truthy (rr_query req) \<Longrightarrow>
   rr_documents req = Some docs \<Longrightarrow> loadModel env s m Reranker now = (Inl e, s1) \<Longrightarrow>
   rerank_handler env s req now = (openai_catch e, s1)"
  by (auto simp: rerank_handler_def truthy_def split: option.splits)

lemma chat_load_failure:
  "cr_model req = Some m \<Longrightarrow> m \<noteq> [] \<Longrightarrow> cr_messages req = Some msgs \<Longrightarrow> msgs \<noteq> [] \<Longrightarrow>
   loadModel env s m Chat now = (Inl e, s1) \<Longrightarrow>
   chat_completions_handler env s req now now_id = (openai_catch e, s1)"
  by (simp add: chat_handler_valid)

lemma openai_catch_ENOENT:
  "isError e \<Longrightarrow> err_code e = Some ''ENOENT'' \<Longrightarrow> err_path e = Some p \<Longrightarrow>
   openai_catch e = model_not_found p"
  by (simp add: openai_catch_def is_ENOENT_def not_found_message_def model_not_found_def)

lemma openai_catch_other:
  "\<not> (isError e \<and> err_code e = Some ''ENOENT'') \<Longrightarrow> status (openai_catch e) = 500"
  by (simp add: openai_catch_def is_ENOENT_def)

text \<open>
  C8. A request to the embeddings, rerank or chat endpoint (\<open>T\<close> selects which) that passes
  the parameter check names a model \<open>m\<close> that the cache does not hold, and the engine fails
  to load it. If the failure is the file system's \<open>ENOENT\<close> error for the resolved path,
  the response is 404 with code \<open>model_not_found\<close> and a message that quotes that path; if
  the failure is not an \<open>ENOENT\<close> error, the response has status 500.
\<close>

theorem missing_artifact_404_other_failure_500:
  assumes m: "m \<noteq> []"
    and miss: "map_of (loadedModels s) (modelPath env m T) = None"
    and fail: "llama_loadModel env (modelPath env m T) = Inl e"
    and ereq: "er_model ereq = Some m" "truthy_input (er_input ereq)"
    and rreq: "rr_model rreq = Some m" "truthy (rr_query rreq)" "rr_documents rreq = Some docs"
    and creq: "cr_model creq = Some m" "cr_messages creq = Some msgs" "msgs \<noteq> []"
    and r: "r = (case T of
                   Embedding \<Rightarrow> fst (embeddings_handler env s ereq now)
                 | Reranker \<Rightarrow> fst (rerank_handler env s rreq now)
                 | Chat \<Rightarrow> fst (chat_completions_handler env s creq now now_id))"
  shows "(isError e \<and> err_code e = Some ''ENOENT'' \<and> err_path e = Some (modelPath env m T) \<longrightarrow>
            r = model_not_found (modelPath env m T))
       \<and> (\<not> (isError e \<and> err_code e = Some ''ENOENT'') \<longrightarrow> status r = 500)"
proof -
  note l = loadModel_engine_failure[OF miss fail, of now]
  have "r = openai_catch e"
  proof (cases T)
    case Embedding
    with l r embeddings_load_failure[OF ereq(1) m ereq(2)] show ?thesis by simp
  next
    case Reranker
    with l r rerank_load_failure[OF rreq(1) m rreq(2) rreq(3)] show ?thesis by simp
  next
    case Chat
    with l r chat_load_failure[OF creq(1) m creq(2) creq(3)] show ?thesis by simp
  qed
  then show ?thesis
    using openai_catch_ENOENT[of e "modelPath env m T"] openai_catch_other[of e] by blast
qed

theorem missing_artifact_404_other_failure_500_witness:
  "fst (embeddings_handler demo_env init_server
          \<lparr>er_model = Some ''ghost'', er_input = Some (Str ''text'')\<rparr> 5) =
     model_not_found ''models/embedding/ghost.gguf''
   \<and> status (fst (chat_completions_handler demo_env init_server
                     (chat_hi\<lparr>cr_model := Some ''broken''\<rparr>) 5 5)) = 500"
proof -
  let ?ghost = "\<lparr>isError = True, err_code = Some ''ENOENT'',
                 err_path = Some ''models/embedding/ghost.gguf'',
                 err_message = ''no such file or directory''\<rparr>"
  let ?broken = "\<lparr>isError = True, err_code = None, err_path = None,
                  err_message = ''Failed to load model''\<rparr>"
  let ?ereq = "\<lambda>m. \<lparr>er_model = Some m, er_input = Some (Str ''text'')\<rparr>"
  let ?rreq = "\<lambda>m. \<lparr>rr_model = Some m, rr_query = Some ''q'', rr_documents = Some []\<rparr>"
  let ?creq = "\<lambda>m. chat_hi\<lparr>cr_model := Some m\<rparr>"
  have p1: "modelPath demo_env ''ghost'' Embedding = ''models/embedding/ghost.gguf''"
    by (simp add: demo_simps)
  have miss1: "map_of (loadedModels init_server) (modelPath demo_env ''ghost'' Embedding) = None"
    by (simp add: init_server_def)
  have fail1: "llama_loadModel demo_env (modelPath demo_env ''ghost'' Embedding) = Inl ?ghost"
    by (simp add: demo_simps)
  have miss2: "map_of (loadedModels init_server) (modelPath demo_env ''broken'' Chat) = None"
    by (simp add: init_server_def)
  have fail2: "llama_loadModel demo_env (modelPath demo_env ''broken'' Chat) = Inl ?broken"
    by (simp add: demo_simps)
  have msgs: "\<And>m. cr_messages (?creq m) =
      Some [\<lparr>role = ''system'', content = ''Be brief''\<rparr>, \<lparr>role = ''user'', content = ''hi''\<rparr>]"
    by (simp add: chat_hi_def)
  have a: "fst (embeddings_handler demo_env init_server (?ereq ''ghost'') 5) =
           model_not_found ''models/embedding/ghost.gguf''"
    using missing_artifact_404_other_failure_500[OF _ miss1 fail1,
        of "?ereq ''ghost''" "?rreq ''ghost''" "[]" "?creq ''ghost''" _ _ 5 5] msgs p1
    by (simp add: truthy_def truthy_input_def)
  have b: "status (fst (chat_completions_handler demo_env init_server (?creq ''broken'') 5 5)) = 500"
    using missing_artifact_404_other_failure_500[OF _ miss2 fail2,
        of "?ereq ''broken''" "?rreq ''broken''" "[]" "?creq ''broken''" _ _ 5 5] msgs
    by (simp add: truthy_def truthy_input_def)
  from a b show ?thesis by simp
qed

subsection \<open>Unload\<close>

lemma find_loaded_plain_name:
  assumes "\<not> endsWith m ''.gguf''" and "map_of lm (modelPath env m T) \<noteq> None"
  shows "find_loaded env lm m [Embedding, Reranker, Chat] \<noteq> None"
  using assms by (cases T) (auto simp: modelPath_def modelFileName_def Let_def)

lemma find_loaded_Some:
  "find_loaded env lm m ts = Some p \<Longrightarrow>
   map_of lm p \<noteq> None \<and> (\<exists>t \<in> set ts. p = path_join env (MODEL_DIRS env t) (m @ ''.gguf''))"
  by (induction ts) (auto simp: Let_def split: if_splits)

text \<open>
  For a name without the extension the handler does unload: it disposes the model of the
  first directory, in the order embedding, reranker, chat, that holds the name, and deletes
  that entry.
\<close>

lemma unload_plain_name:
  assumes "m \<noteq> []" "\<not> endsWith m ''.gguf''"
    and "map_of (loadedModels s) (modelPath env m T) \<noteq> None"
    and "\<forall>h. dispose env h = None" "\<forall>d f. path_join env d f \<noteq> []"
  shows "\<exists>p c. find_loaded env (loadedModels s) m [Embedding, Reranker, Chat] = Some p \<and>
           map_of (loadedModels s) p = Some c \<and>
           models_unload_handler env s (Some m) =
             (MessageJson ''Model unloaded successfully'',
              (log_call (Dispose (model c)) s)\<lparr>loadedModels := AList.delete p (loadedModels s)\<rparr>)"
proof -
  from find_loaded_plain_name[OF assms(2,3)] obtain p where
    p: "find_loaded env (loadedModels s) m [Embedding, Reranker, Chat] = Some p" by blast
  from find_loaded_Some[OF p] obtain c where c: "map_of (loadedModels s) p = Some c"
    and "p \<noteq> []" using assms(5) by auto
  then show ?thesis using p assms(1,4)
    by (simp add: models_unload_handler_def Let_def log_call_def)
qed

text \<open>
  C3. The code does not do what the claim says for a model that was loaded under a name
  that ends in \<open>.gguf\<close>. \<open>loadModel\<close> keeps such a name as the file name, the unload
  handler appends \<open>.gguf\<close> to every name: after a successful load of \<open>foo.gguf\<close> as a chat
  model, unloading \<open>foo.gguf\<close> looks for \<open>foo.gguf.gguf\<close>, answers 404 and leaves the model
  in the cache.
\<close>

theorem unload_misses_name_with_extension:
  "(case models_load_handler demo_env init_server
           \<lparr>lr_model = Some ''foo.gguf'', lr_type = Some ''chat''\<rparr> 5 of
      (r1, s1) \<Rightarrow> (r1, models_unload_handler demo_env s1 (Some ''foo.gguf''))) =
   (MessageJson ''Model loaded successfully'',
    FlatErrorJson 404 ''Model not found or not loaded'',
    \<lparr>loadedModels =
       [(''models/chat/foo.gguf'',
         \<lparr>model = 20, embeddingContext = None, rankingContext = None, lastUsed = 5\<rparr>)],
     engine_calls = [LoadModel ''models/chat/foo.gguf'']\<rparr>)"
  by (simp add: models_load_handler_def models_unload_handler_def truthy_def type_of_string_def
        demo_simps)

theorem unload_misses_name_with_extension_witness:
  "(case models_load_handler demo_env init_server
           \<lparr>lr_model = Some ''foo.gguf'', lr_type = Some ''chat''\<rparr> 5 of
      (r1, s1) \<Rightarrow>
        (status r1, status (fst (models_unload_handler demo_env s1 (Some ''foo.gguf''))),
         map fst (loadedModels (snd (models_unload_handler demo_env s1 (Some ''foo.gguf'')))))) =
   (200, 404, [''models/chat/foo.gguf''])"
  using unload_misses_name_with_extension by (auto split: prod.splits)

end
